theory Spec2Isabelle
  imports Main "HOL-Library.Word"
begin

unbundle bit_operations_syntax

section \<open>Data model\<close>

text \<open>
  The stubs of \<^verbatim>\<open>stubGenerator_x86_64_chacha.cpp\<close> take two pointers, \<^verbatim>\<open>state\<close>
  (\<^verbatim>\<open>c_rarg0\<close>, the 16 32-bit words of the cipher state) and \<^verbatim>\<open>result\<close> (\<^verbatim>\<open>c_rarg1\<close>, the
  key stream buffer), and return the number of bytes written in \<^verbatim>\<open>rax\<close>. Memory is one
  byte-addressed store; a vector register is the list of its 32-bit lanes, lane 0 (the
  least significant doubleword) first: 4 lanes for a 128-bit, 8 for a 256-bit and 16 for
  a 512-bit operation.
\<close>

type_synonym u32 = "32 word"
type_synonym vec = "32 word list"
type_synonym memory = "nat \<Rightarrow> 8 word"
type_synonym rows = "vec \<times> vec \<times> vec \<times> vec"

datatype vector_len = AVX_128bit | AVX_256bit | AVX_512bit

record VM_Version =
  supports_evex :: bool
  supports_avx2 :: bool
  supports_avx :: bool

subsection \<open>Constants\<close>

definition CC20_COUNTER_ADD_AVX :: "64 word list" where
  "CC20_COUNTER_ADD_AVX = [
     0x0000000000000000, 0x0000000000000000,
     0x0000000000000001, 0x0000000000000000,
     0x0000000000000002, 0x0000000000000000,
     0x0000000000000002, 0x0000000000000000]"

definition CC20_COUNTER_ADD_AVX512 :: "64 word list" where
  "CC20_COUNTER_ADD_AVX512 = [
     0x0000000000000000, 0x0000000000000000,
     0x0000000000000001, 0x0000000000000000,
     0x0000000000000002, 0x0000000000000000,
     0x0000000000000003, 0x0000000000000000,

     0x0000000000000004, 0x0000000000000000,
     0x0000000000000004, 0x0000000000000000,
     0x0000000000000004, 0x0000000000000000,
     0x0000000000000004, 0x0000000000000000]"

text \<open>
  A table of \<^verbatim>\<open>uint64_t\<close> read as a vector memory operand on little-endian x86: each
  quadword is two doubleword lanes, low half first. \<open>table_operand tbl off n\<close> is the
  operand \<^verbatim>\<open>Address(rax, off)\<close> of \<open>n\<close> lanes, \<^verbatim>\<open>rax\<close> holding the table's address.
\<close>

definition table_dwords :: "64 word list \<Rightarrow> vec" where
  "table_dwords tbl = concat (map (\<lambda>q. [ucast q, ucast (drop_bit 32 q)]) tbl)"

definition table_operand :: "64 word list \<Rightarrow> nat \<Rightarrow> nat \<Rightarrow> vec" where
  "table_operand tbl off n = take n (drop (off div 4) (table_dwords tbl))"

subsection \<open>Memory and vector instructions\<close>

definition load32 :: "memory \<Rightarrow> nat \<Rightarrow> u32" where
  "load32 mem a =
     ucast (mem a) OR push_bit 8 (ucast (mem (a + 1))) OR
     push_bit 16 (ucast (mem (a + 2))) OR push_bit 24 (ucast (mem (a + 3)))"

definition byte_of :: "u32 \<Rightarrow> nat \<Rightarrow> 8 word" where
  "byte_of w k = ucast (drop_bit (8 * k) w)"

text \<open>\<^verbatim>\<open>movdqu xmm, m128\<close>: four little-endian doublewords.\<close>

definition movdqu_load :: "memory \<Rightarrow> nat \<Rightarrow> vec" where
  "movdqu_load mem a =
     [load32 mem a, load32 mem (a + 4), load32 mem (a + 8), load32 mem (a + 12)]"

text \<open>\<^verbatim>\<open>vbroadcastf128 ymm, m128\<close> and \<^verbatim>\<open>evbroadcasti32x4 zmm, m128\<close>.\<close>

definition vbroadcastf128 :: "memory \<Rightarrow> nat \<Rightarrow> vec" where
  "vbroadcastf128 mem a = movdqu_load mem a @ movdqu_load mem a"

definition evbroadcasti32x4 :: "memory \<Rightarrow> nat \<Rightarrow> vec" where
  "evbroadcasti32x4 mem a =
     movdqu_load mem a @ movdqu_load mem a @ movdqu_load mem a @ movdqu_load mem a"

definition vpaddd :: "vec \<Rightarrow> vec \<Rightarrow> vec" where
  "vpaddd x y = map2 (+) x y"

definition vpxor :: "vec \<Rightarrow> vec \<Rightarrow> vec" where
  "vpxor x y = map2 (XOR) x y"

definition vprold :: "vec \<Rightarrow> nat \<Rightarrow> vec" where
  "vprold x n = map (word_rotl n) x"

text \<open>The 128-bit segment \<open>l\<close> of a register (what \<^verbatim>\<open>vextracti128\<close> and
  \<^verbatim>\<open>vextracti32x4\<close> select with immediate \<open>l\<close>).\<close>

definition lane128 :: "nat \<Rightarrow> vec \<Rightarrow> vec" where
  "lane128 l v = take 4 (drop (4 * l) v)"

text \<open>A 16-byte store of four lanes at address \<open>a\<close>, little-endian.\<close>

definition store128 :: "memory \<Rightarrow> nat \<Rightarrow> vec \<Rightarrow> memory" where
  "store128 mem a v =
     (\<lambda>x. if a \<le> x \<and> x < a + 16 then byte_of (v ! ((x - a) div 4)) ((x - a) mod 4)
          else mem x)"

definition movdqu_store :: "memory \<Rightarrow> nat \<Rightarrow> vec \<Rightarrow> memory" where
  "movdqu_store mem a v = store128 mem a (lane128 0 v)"

definition vextracti128 :: "memory \<Rightarrow> nat \<Rightarrow> vec \<Rightarrow> nat \<Rightarrow> memory" where
  "vextracti128 mem a v imm = store128 mem a (lane128 imm v)"

definition vextracti32x4 :: "memory \<Rightarrow> nat \<Rightarrow> vec \<Rightarrow> nat \<Rightarrow> memory" where
  "vextracti32x4 mem a v imm = store128 mem a (lane128 imm v)"

section \<open>Macro-assembler helpers\<close>

text \<open>
  Modelled from the spec: \<^verbatim>\<open>MacroAssembler::cc20_quarter_round_avx\<close> is called by both
  stubs but defined outside the given sources. It is the quarter round of section 4.2
  (\<^verbatim>\<open>a += b; d ^= a; d = rotl(d, 16); c += d; b ^= c; b = rotl(b, 12); a += b; d ^= a;
  d = rotl(d, 8); c += d; b ^= c; b = rotl(b, 7)\<close>) applied to every lane of the four row
  registers at once.
\<close>

definition cc20_quarter_round_avx :: "rows \<Rightarrow> rows" where
  "cc20_quarter_round_avx r =
     (case r of (aVec, bVec, cVec, dVec) \<Rightarrow>
      let aVec = vpaddd aVec bVec; dVec = vpxor dVec aVec; dVec = vprold dVec 16;
          cVec = vpaddd cVec dVec; bVec = vpxor bVec cVec; bVec = vprold bVec 12;
          aVec = vpaddd aVec bVec; dVec = vpxor dVec aVec; dVec = vprold dVec 8;
          cVec = vpaddd cVec dVec; bVec = vpxor bVec cVec; bVec = vprold bVec 7
      in (aVec, bVec, cVec, dVec))"

text \<open>
  Modelled from the spec: the lane rotation that \<^verbatim>\<open>MacroAssembler::cc20_shift_lane_org\<close>
  (defined outside the given sources) applies to one register. Section 4.2: the lanes are
  cyclically rotated within each 128-bit row; by \<open>n\<close> positions, lane \<open>i\<close> of a row receives
  lane \<open>(i + n) mod 4\<close> of the same row.
\<close>

definition rotate_lanes :: "nat \<Rightarrow> vec \<Rightarrow> vec" where
  "rotate_lanes n v = concat (map (\<lambda>l. rotate n (lane128 l v)) [0..<length v div 4])"

text \<open>
  Modelled from the spec: \<^verbatim>\<open>MacroAssembler::cc20_shift_lane_org\<close> is defined outside the
  given sources. Section 4.2: the lanes of the b/c/d rows are cyclically rotated by 1/2/3
  positions (columns to diagonals), and rotated back by the same amounts afterwards
  (diagonals to columns).
\<close>

definition cc20_shift_lane_org :: "vec \<times> vec \<times> vec \<Rightarrow> bool \<Rightarrow> vec \<times> vec \<times> vec" where
  "cc20_shift_lane_org r colToDiag =
     (case r of (bVec, cVec, dVec) \<Rightarrow>
      if colToDiag
      then (rotate_lanes 1 bVec, rotate_lanes 2 cVec, rotate_lanes 3 dVec)
      else (rotate_lanes (4 - 1) bVec, rotate_lanes (4 - 2) cVec, rotate_lanes (4 - 3) dVec))"

text \<open>
  Modelled from the spec: \<^verbatim>\<open>MacroAssembler::cc20_keystream_collate_avx512\<close> is defined
  outside the given sources. The stub's comment: each ZMM is divided into 4 128-bit
  segments, each segment written at 64-byte displacements from one another; section 4.3:
  within a block the rows a, b, c, d are words 0..3, 4..7, 8..11, 12..15, so they go to
  byte offsets 0, 16, 32, 48 of the block.
\<close>

definition cc20_keystream_collate_avx512 ::
  "rows \<Rightarrow> nat \<Rightarrow> nat \<Rightarrow> memory \<Rightarrow> memory" where
  "cc20_keystream_collate_avx512 r baseAddr baseOffset mem =
     (case r of (aVec, bVec, cVec, dVec) \<Rightarrow>
      let mem = vextracti32x4 mem (baseAddr + baseOffset + 0) aVec 0;
          mem = vextracti32x4 mem (baseAddr + baseOffset + 64) aVec 1;
          mem = vextracti32x4 mem (baseAddr + baseOffset + 128) aVec 2;
          mem = vextracti32x4 mem (baseAddr + baseOffset + 192) aVec 3;
          mem = vextracti32x4 mem (baseAddr + baseOffset + 16) bVec 0;
          mem = vextracti32x4 mem (baseAddr + baseOffset + 80) bVec 1;
          mem = vextracti32x4 mem (baseAddr + baseOffset + 144) bVec 2;
          mem = vextracti32x4 mem (baseAddr + baseOffset + 208) bVec 3;
          mem = vextracti32x4 mem (baseAddr + baseOffset + 32) cVec 0;
          mem = vextracti32x4 mem (baseAddr + baseOffset + 96) cVec 1;
          mem = vextracti32x4 mem (baseAddr + baseOffset + 160) cVec 2;
          mem = vextracti32x4 mem (baseAddr + baseOffset + 224) cVec 3;
          mem = vextracti32x4 mem (baseAddr + baseOffset + 48) dVec 0;
          mem = vextracti32x4 mem (baseAddr + baseOffset + 112) dVec 1;
          mem = vextracti32x4 mem (baseAddr + baseOffset + 176) dVec 2;
          mem = vextracti32x4 mem (baseAddr + baseOffset + 240) dVec 3
      in mem)"

section \<open>The 2-block AVX and 4-block AVX2 stub\<close>

text \<open>Lines 136-178: load the initial state and copy it to the working register sets.
  The result is the saved state \<open>(aState, bState, cState, dState, d2State)\<close> and the
  two working sets.\<close>

definition avx_load_state ::
  "vector_len \<Rightarrow> memory \<Rightarrow> nat \<Rightarrow> (vec \<times> vec \<times> vec \<times> vec \<times> vec) \<times> rows \<times> rows" where
  "avx_load_state vector_len mem state =
     (if vector_len = AVX_128bit then
        let aState = movdqu_load mem (state + 0);
            bState = movdqu_load mem (state + 16);
            cState = movdqu_load mem (state + 32);
            dState = movdqu_load mem (state + 48);
            a1Vec = aState; b1Vec = bState; c1Vec = cState; d1Vec = dState;
            a2Vec = aState; b2Vec = bState; c2Vec = cState;
            d2State = vpaddd dState (table_operand CC20_COUNTER_ADD_AVX 16 4);
            d2Vec = d2State
        in ((aState, bState, cState, dState, d2State),
            (a1Vec, b1Vec, c1Vec, d1Vec), (a2Vec, b2Vec, c2Vec, d2Vec))
      else
        let aState = vbroadcastf128 mem (state + 0);
            bState = vbroadcastf128 mem (state + 16);
            cState = vbroadcastf128 mem (state + 32);
            dState = vbroadcastf128 mem (state + 48);
            dState = vpaddd dState (table_operand CC20_COUNTER_ADD_AVX 0 8);
            d2State = vpaddd dState (table_operand CC20_COUNTER_ADD_AVX 32 8);
            a1Vec = aState; b1Vec = bState; c1Vec = cState; d1Vec = dState;
            a2Vec = aState; b2Vec = bState; c2Vec = cState; d2Vec = d2State
        in ((aState, bState, cState, dState, d2State),
            (a1Vec, b1Vec, c1Vec, d1Vec), (a2Vec, b2Vec, c2Vec, d2Vec)))"

text \<open>Lines 183-209: one iteration of the loop at \<^verbatim>\<open>L_twoRounds\<close>.\<close>

definition avx_twoRounds_body :: "rows \<times> rows \<Rightarrow> rows \<times> rows" where
  "avx_twoRounds_body w =
     (case w of ((a1Vec, b1Vec, c1Vec, d1Vec), (a2Vec, b2Vec, c2Vec, d2Vec)) \<Rightarrow>
      let (a1Vec, b1Vec, c1Vec, d1Vec) = cc20_quarter_round_avx (a1Vec, b1Vec, c1Vec, d1Vec);
          (a2Vec, b2Vec, c2Vec, d2Vec) = cc20_quarter_round_avx (a2Vec, b2Vec, c2Vec, d2Vec);
          (b1Vec, c1Vec, d1Vec) = cc20_shift_lane_org (b1Vec, c1Vec, d1Vec) True;
          (b2Vec, c2Vec, d2Vec) = cc20_shift_lane_org (b2Vec, c2Vec, d2Vec) True;
          (a1Vec, b1Vec, c1Vec, d1Vec) = cc20_quarter_round_avx (a1Vec, b1Vec, c1Vec, d1Vec);
          (a2Vec, b2Vec, c2Vec, d2Vec) = cc20_quarter_round_avx (a2Vec, b2Vec, c2Vec, d2Vec);
          (b1Vec, c1Vec, d1Vec) = cc20_shift_lane_org (b1Vec, c1Vec, d1Vec) False;
          (b2Vec, c2Vec, d2Vec) = cc20_shift_lane_org (b2Vec, c2Vec, d2Vec) False
      in ((a1Vec, b1Vec, c1Vec, d1Vec), (a2Vec, b2Vec, c2Vec, d2Vec)))"

text \<open>Lines 180-212: \<^verbatim>\<open>movl(loopCounter, 10)\<close>, then the body, \<^verbatim>\<open>decrement(loopCounter)\<close>
  and \<^verbatim>\<open>jcc(notZero, L_twoRounds)\<close>: the body runs, the counter is decremented, and the
  loop repeats while the counter is not zero. The argument is the number of iterations
  still to run; the stub enters with 10.\<close>

fun avx_twoRounds :: "nat \<Rightarrow> rows \<times> rows \<Rightarrow> rows \<times> rows" where
  "avx_twoRounds 0 w = w"
| "avx_twoRounds (Suc loopCounter) w = avx_twoRounds loopCounter (avx_twoRounds_body w)"

text \<open>Lines 214-223: add the original start state back into the current state.\<close>

definition avx_add_state :: "vec \<times> vec \<times> vec \<times> vec \<times> vec \<Rightarrow> rows \<times> rows \<Rightarrow> rows \<times> rows" where
  "avx_add_state saved w =
     (case (saved, w) of ((aState, bState, cState, dState, d2State),
       ((a1Vec, b1Vec, c1Vec, d1Vec), (a2Vec, b2Vec, c2Vec, d2Vec))) \<Rightarrow>
      let a1Vec = vpaddd a1Vec aState;
          b1Vec = vpaddd b1Vec bState;
          c1Vec = vpaddd c1Vec cState;
          d1Vec = vpaddd d1Vec dState;
          a2Vec = vpaddd a2Vec aState;
          b2Vec = vpaddd b2Vec bState;
          c2Vec = vpaddd c2Vec cState;
          d2Vec = vpaddd d2Vec d2State
      in ((a1Vec, b1Vec, c1Vec, d1Vec), (a2Vec, b2Vec, c2Vec, d2Vec)))"

text \<open>Lines 225-256: write the data to the keystream array.\<close>

definition avx_write_keystream :: "vector_len \<Rightarrow> nat \<Rightarrow> rows \<times> rows \<Rightarrow> memory \<Rightarrow> memory" where
  "avx_write_keystream vector_len result w mem =
     (case w of ((a1Vec, b1Vec, c1Vec, d1Vec), (a2Vec, b2Vec, c2Vec, d2Vec)) \<Rightarrow>
      if vector_len = AVX_128bit then
        let mem = movdqu_store mem (result + 0) a1Vec;
            mem = movdqu_store mem (result + 16) b1Vec;
            mem = movdqu_store mem (result + 32) c1Vec;
            mem = movdqu_store mem (result + 48) d1Vec;
            mem = movdqu_store mem (result + 64) a2Vec;
            mem = movdqu_store mem (result + 80) b2Vec;
            mem = movdqu_store mem (result + 96) c2Vec;
            mem = movdqu_store mem (result + 112) d2Vec
        in mem
      else
        let mem = vextracti128 mem (result + 0) a1Vec 0;
            mem = vextracti128 mem (result + 64) a1Vec 1;
            mem = vextracti128 mem (result + 16) b1Vec 0;
            mem = vextracti128 mem (result + 80) b1Vec 1;
            mem = vextracti128 mem (result + 32) c1Vec 0;
            mem = vextracti128 mem (result + 96) c1Vec 1;
            mem = vextracti128 mem (result + 48) d1Vec 0;
            mem = vextracti128 mem (result + 112) d1Vec 1;
            mem = vextracti128 mem (result + 128) a2Vec 0;
            mem = vextracti128 mem (result + 192) a2Vec 1;
            mem = vextracti128 mem (result + 144) b2Vec 0;
            mem = vextracti128 mem (result + 208) b2Vec 1;
            mem = vextracti128 mem (result + 160) c2Vec 0;
            mem = vextracti128 mem (result + 224) c2Vec 1;
            mem = vextracti128 mem (result + 176) d2Vec 0;
            mem = vextracti128 mem (result + 240) d2Vec 1
        in mem)"

text \<open>The stub as a whole. It is generated only where AVX2 or AVX is supported
  (\<^verbatim>\<open>vector_len\<close> and \<^verbatim>\<open>outlen\<close> are set from \<^verbatim>\<open>supports_avx2\<close>, else \<^verbatim>\<open>supports_avx\<close>);
  the returned pair is the memory at \<^verbatim>\<open>ret\<close> and \<^verbatim>\<open>rax\<close>.\<close>

definition generate_chacha20Block_avx ::
  "VM_Version \<Rightarrow> nat \<Rightarrow> nat \<Rightarrow> memory \<Rightarrow> memory \<times> nat" where
  "generate_chacha20Block_avx vm state result mem =
     (let (vector_len, outlen) =
            (if supports_avx2 vm then (AVX_256bit, 256) else (AVX_128bit, 128));
          (saved, w) = avx_load_state vector_len mem state;
          w = avx_twoRounds 10 w;
          w = avx_add_state saved w;
          mem = avx_write_keystream vector_len result w mem
      in (mem, outlen))"

section \<open>The 16-block AVX512 stub\<close>

text \<open>Lines 306-342: load the initial state, broadcast to all four 128-bit slots, apply the
  add masks to the d rows and copy to the four working register sets. The result is the
  saved state \<open>(aState, bState, cState, dState, d2State, d3State, d4State)\<close> and the
  working sets.\<close>

definition avx512_load_state ::
  "memory \<Rightarrow> nat \<Rightarrow>
   (vec \<times> vec \<times> vec \<times> vec \<times> vec \<times> vec \<times> vec) \<times> rows \<times> rows \<times> rows \<times> rows" where
  "avx512_load_state mem state =
     (let aState = evbroadcasti32x4 mem (state + 0);
          bState = evbroadcasti32x4 mem (state + 16);
          cState = evbroadcasti32x4 mem (state + 32);
          dState = evbroadcasti32x4 mem (state + 48);
          dState = vpaddd dState (table_operand CC20_COUNTER_ADD_AVX512 0 16);
          scratch = table_operand CC20_COUNTER_ADD_AVX512 64 16;
          d2State = vpaddd dState scratch;
          d3State = vpaddd d2State scratch;
          d4State = vpaddd d3State scratch;
          a1Vec = aState; b1Vec = bState; c1Vec = cState; d1Vec = dState;
          a2Vec = aState; b2Vec = bState; c2Vec = cState; d2Vec = d2State;
          a3Vec = aState; b3Vec = bState; c3Vec = cState; d3Vec = d3State;
          a4Vec = aState; b4Vec = bState; c4Vec = cState; d4Vec = d4State
      in ((aState, bState, cState, dState, d2State, d3State, d4State),
          (a1Vec, b1Vec, c1Vec, d1Vec), (a2Vec, b2Vec, c2Vec, d2Vec),
          (a3Vec, b3Vec, c3Vec, d3Vec), (a4Vec, b4Vec, c4Vec, d4Vec)))"

text \<open>Lines 347-382: one iteration of the loop at \<^verbatim>\<open>L_twoRounds\<close>.\<close>

definition avx512_twoRounds_body ::
  "rows \<times> rows \<times> rows \<times> rows \<Rightarrow> rows \<times> rows \<times> rows \<times> rows" where
  "avx512_twoRounds_body w =
     (case w of ((a1Vec, b1Vec, c1Vec, d1Vec), (a2Vec, b2Vec, c2Vec, d2Vec),
          (a3Vec, b3Vec, c3Vec, d3Vec), (a4Vec, b4Vec, c4Vec, d4Vec)) \<Rightarrow>
      let (a1Vec, b1Vec, c1Vec, d1Vec) = cc20_quarter_round_avx (a1Vec, b1Vec, c1Vec, d1Vec);
          (a2Vec, b2Vec, c2Vec, d2Vec) = cc20_quarter_round_avx (a2Vec, b2Vec, c2Vec, d2Vec);
          (a3Vec, b3Vec, c3Vec, d3Vec) = cc20_quarter_round_avx (a3Vec, b3Vec, c3Vec, d3Vec);
          (a4Vec, b4Vec, c4Vec, d4Vec) = cc20_quarter_round_avx (a4Vec, b4Vec, c4Vec, d4Vec);
          (b1Vec, c1Vec, d1Vec) = cc20_shift_lane_org (b1Vec, c1Vec, d1Vec) True;
          (b2Vec, c2Vec, d2Vec) = cc20_shift_lane_org (b2Vec, c2Vec, d2Vec) True;
          (b3Vec, c3Vec, d3Vec) = cc20_shift_lane_org (b3Vec, c3Vec, d3Vec) True;
          (b4Vec, c4Vec, d4Vec) = cc20_shift_lane_org (b4Vec, c4Vec, d4Vec) True;
          (a1Vec, b1Vec, c1Vec, d1Vec) = cc20_quarter_round_avx (a1Vec, b1Vec, c1Vec, d1Vec);
          (a2Vec, b2Vec, c2Vec, d2Vec) = cc20_quarter_round_avx (a2Vec, b2Vec, c2Vec, d2Vec);
          (a3Vec, b3Vec, c3Vec, d3Vec) = cc20_quarter_round_avx (a3Vec, b3Vec, c3Vec, d3Vec);
          (a4Vec, b4Vec, c4Vec, d4Vec) = cc20_quarter_round_avx (a4Vec, b4Vec, c4Vec, d4Vec);
          (b1Vec, c1Vec, d1Vec) = cc20_shift_lane_org (b1Vec, c1Vec, d1Vec) False;
          (b2Vec, c2Vec, d2Vec) = cc20_shift_lane_org (b2Vec, c2Vec, d2Vec) False;
          (b3Vec, c3Vec, d3Vec) = cc20_shift_lane_org (b3Vec, c3Vec, d3Vec) False;
          (b4Vec, c4Vec, d4Vec) = cc20_shift_lane_org (b4Vec, c4Vec, d4Vec) False
      in ((a1Vec, b1Vec, c1Vec, d1Vec), (a2Vec, b2Vec, c2Vec, d2Vec),
          (a3Vec, b3Vec, c3Vec, d3Vec), (a4Vec, b4Vec, c4Vec, d4Vec)))"

text \<open>Lines 344-385: the loop, entered with \<^verbatim>\<open>loopCounter\<close> = 10.\<close>

fun avx512_twoRounds ::
  "nat \<Rightarrow> rows \<times> rows \<times> rows \<times> rows \<Rightarrow> rows \<times> rows \<times> rows \<times> rows" where
  "avx512_twoRounds 0 w = w"
| "avx512_twoRounds (Suc loopCounter) w =
     avx512_twoRounds loopCounter (avx512_twoRounds_body w)"

text \<open>Lines 387-408: add the initial state held on the state registers to the final
  working register values.\<close>

definition avx512_add_state ::
  "vec \<times> vec \<times> vec \<times> vec \<times> vec \<times> vec \<times> vec \<Rightarrow>
   rows \<times> rows \<times> rows \<times> rows \<Rightarrow> rows \<times> rows \<times> rows \<times> rows" where
  "avx512_add_state saved w =
     (case (saved, w) of
        ((aState, bState, cState, dState, d2State, d3State, d4State), ((a1Vec, b1Vec, c1Vec, d1Vec), (a2Vec, b2Vec, c2Vec, d2Vec),
          (a3Vec, b3Vec, c3Vec, d3Vec), (a4Vec, b4Vec, c4Vec, d4Vec))) \<Rightarrow>
      let a1Vec = vpaddd a1Vec aState;
          b1Vec = vpaddd b1Vec bState;
          c1Vec = vpaddd c1Vec cState;
          d1Vec = vpaddd d1Vec dState;
          a2Vec = vpaddd a2Vec aState;
          b2Vec = vpaddd b2Vec bState;
          c2Vec = vpaddd c2Vec cState;
          d2Vec = vpaddd d2Vec d2State;
          a3Vec = vpaddd a3Vec aState;
          b3Vec = vpaddd b3Vec bState;
          c3Vec = vpaddd c3Vec cState;
          d3Vec = vpaddd d3Vec d3State;
          a4Vec = vpaddd a4Vec aState;
          b4Vec = vpaddd b4Vec bState;
          c4Vec = vpaddd c4Vec cState;
          d4Vec = vpaddd d4Vec d4State
      in ((a1Vec, b1Vec, c1Vec, d1Vec), (a2Vec, b2Vec, c2Vec, d2Vec),
          (a3Vec, b3Vec, c3Vec, d3Vec), (a4Vec, b4Vec, c4Vec, d4Vec)))"

text \<open>Lines 410-418: write the ZMM state registers out to the key stream buffer.\<close>

definition avx512_write_keystream ::
  "nat \<Rightarrow> rows \<times> rows \<times> rows \<times> rows \<Rightarrow> memory \<Rightarrow> memory" where
  "avx512_write_keystream result w mem =
     (case w of ((a1Vec, b1Vec, c1Vec, d1Vec), (a2Vec, b2Vec, c2Vec, d2Vec),
          (a3Vec, b3Vec, c3Vec, d3Vec), (a4Vec, b4Vec, c4Vec, d4Vec)) \<Rightarrow>
      let mem = cc20_keystream_collate_avx512 (a1Vec, b1Vec, c1Vec, d1Vec) result 0 mem;
          mem = cc20_keystream_collate_avx512 (a2Vec, b2Vec, c2Vec, d2Vec) result 256 mem;
          mem = cc20_keystream_collate_avx512 (a3Vec, b3Vec, c3Vec, d3Vec) result 512 mem;
          mem = cc20_keystream_collate_avx512 (a4Vec, b4Vec, c4Vec, d4Vec) result 768 mem
      in mem)"

definition generate_chacha20Block_avx512 :: "nat \<Rightarrow> nat \<Rightarrow> memory \<Rightarrow> memory \<times> nat" where
  "generate_chacha20Block_avx512 state result mem =
     (let (saved, w) = avx512_load_state mem state;
          w = avx512_twoRounds 10 w;
          w = avx512_add_state saved w;
          mem = avx512_write_keystream result w mem
      in (mem, 1024))"

section \<open>Stub selection\<close>

text \<open>\<^verbatim>\<open>generate_chacha_stubs\<close> (with \<^verbatim>\<open>UseChaCha20Intrinsics\<close> set) installs one of the two
  stubs as \<^verbatim>\<open>StubRoutines::_chacha20Block\<close>.\<close>

definition generate_chacha_stubs :: "VM_Version \<Rightarrow> nat \<Rightarrow> nat \<Rightarrow> memory \<Rightarrow> memory \<times> nat" where
  "generate_chacha_stubs vm =
     (if supports_evex vm then generate_chacha20Block_avx512
      else generate_chacha20Block_avx vm)"

text \<open>The three tiers are the three hardware levels the stubs distinguish: AVX only
  (128-bit registers), AVX2 (256-bit) and AVX512 (512-bit). \<open>tier_vm\<close> gives the feature
  flags by which the source selects the stub and, inside the AVX stub, the vector length;
  \<open>tier_blocks\<close> is the block count \<open>N\<close> the specification gives for the tier (2, 4, 16).
  That a stub writes and returns \<open>N * 64\<close> bytes is proved below from the stub.\<close>

datatype tier = Narrow | Medium | Wide

fun tier_vm :: "tier \<Rightarrow> VM_Version" where
  "tier_vm Narrow = \<lparr>supports_evex = False, supports_avx2 = False, supports_avx = True\<rparr>"
| "tier_vm Medium = \<lparr>supports_evex = False, supports_avx2 = True, supports_avx = True\<rparr>"
| "tier_vm Wide = \<lparr>supports_evex = True, supports_avx2 = True, supports_avx = True\<rparr>"

fun tier_blocks :: "tier \<Rightarrow> nat" where
  "tier_blocks Narrow = 2"
| "tier_blocks Medium = 4"
| "tier_blocks Wide = 16"

definition generate :: "tier \<Rightarrow> nat \<Rightarrow> nat \<Rightarrow> memory \<Rightarrow> memory \<times> nat" where
  "generate t state result mem = generate_chacha_stubs (tier_vm t) state result mem"

text \<open>The cipher state the stub reads: sixteen little-endian words at \<^verbatim>\<open>state\<close>.\<close>

definition cipher_state :: "memory \<Rightarrow> nat \<Rightarrow> u32 list" where
  "cipher_state mem state = map (\<lambda>j. load32 mem (state + 4 * j)) [0..<16]"

section \<open>The scalar reference algorithm\<close>

text \<open>The reference the stubs are compared with is written from sections 4.2 and 4.3 of
  the specification: the quarter round on four words, applied to the column and the
  diagonal quadruples of a 16-word block by index, ten double rounds, the feed-forward
  addition and the little-endian serialization.\<close>

definition ref_QR :: "u32 \<times> u32 \<times> u32 \<times> u32 \<Rightarrow> u32 \<times> u32 \<times> u32 \<times> u32" where
  "ref_QR q =
     (case q of (a, b, c, d) \<Rightarrow>
      let a = a + b; d = d XOR a; d = word_rotl 16 d;
          c = c + d; b = b XOR c; b = word_rotl 12 b;
          a = a + b; d = d XOR a; d = word_rotl 8 d;
          c = c + d; b = b XOR c; b = word_rotl 7 b
      in (a, b, c, d))"

definition ref_QR_at :: "nat \<Rightarrow> nat \<Rightarrow> nat \<Rightarrow> nat \<Rightarrow> u32 list \<Rightarrow> u32 list" where
  "ref_QR_at i j k l s =
     (case ref_QR (s ! i, s ! j, s ! k, s ! l) of
        (a, b, c, d) \<Rightarrow> s[i := a, j := b, k := c, l := d])"

definition ref_column_round :: "u32 list \<Rightarrow> u32 list" where
  "ref_column_round s =
     ref_QR_at 3 7 11 15 (ref_QR_at 2 6 10 14 (ref_QR_at 1 5 9 13 (ref_QR_at 0 4 8 12 s)))"

definition ref_diagonal_round :: "u32 list \<Rightarrow> u32 list" where
  "ref_diagonal_round s =
     ref_QR_at 3 4 9 14 (ref_QR_at 2 7 8 13 (ref_QR_at 1 6 11 12 (ref_QR_at 0 5 10 15 s)))"

definition ref_double_round :: "u32 list \<Rightarrow> u32 list" where
  "ref_double_round s = ref_diagonal_round (ref_column_round s)"

definition ref_block :: "u32 list \<Rightarrow> u32 list" where
  "ref_block s = map2 (+) ((ref_double_round ^^ 10) s) s"

definition le_bytes :: "u32 \<Rightarrow> 8 word list" where
  "le_bytes w = [byte_of w 0, byte_of w 1, byte_of w 2, byte_of w 3]"

definition ref_keystream_block :: "u32 list \<Rightarrow> 8 word list" where
  "ref_keystream_block s = concat (map le_bytes (ref_block s))"

text \<open>The cipher state with its counter word (word 12) replaced.\<close>

definition with_counter :: "u32 list \<Rightarrow> u32 \<Rightarrow> u32 list" where
  "with_counter s c = s[12 := c]"

section \<open>Blocks held in the row registers\<close>

text \<open>A working register set \<open>(aVec, bVec, cVec, dVec)\<close> holds one block per 128-bit
  segment: segment \<open>l\<close> of the four registers is rows a, b, c, d (words 0..3, 4..7, 8..11,
  12..15) of one block.\<close>

definition flat :: "rows \<Rightarrow> u32 list" where
  "flat r = (case r of (a, b, c, d) \<Rightarrow> a @ b @ c @ d)"

definition rows_lane :: "nat \<Rightarrow> rows \<Rightarrow> rows" where
  "rows_lane l r =
     (case r of (a, b, c, d) \<Rightarrow> (lane128 l a, lane128 l b, lane128 l c, lane128 l d))"

definition block_of :: "rows \<Rightarrow> nat \<Rightarrow> u32 list" where
  "block_of r l = flat (rows_lane l r)"

text \<open>All four registers of a set hold \<open>k\<close> 128-bit segments.\<close>

definition rows_wf :: "nat \<Rightarrow> rows \<Rightarrow> bool" where
  "rows_wf k r =
     (case r of (a, b, c, d) \<Rightarrow>
        length a = 4 * k \<and> length b = 4 * k \<and> length c = 4 * k \<and> length d = 4 * k)"

text \<open>The blocks of the working sets in the order of their counters: with 128-bit
  registers one block per set, with 256-bit registers two, with 512-bit registers four.\<close>

definition avx_blocks :: "vector_len \<Rightarrow> rows \<times> rows \<Rightarrow> u32 list list" where
  "avx_blocks vector_len w =
     (case w of (w1, w2) \<Rightarrow>
        if vector_len = AVX_128bit then [block_of w1 0, block_of w2 0]
        else [block_of w1 0, block_of w1 1, block_of w2 0, block_of w2 1])"

definition avx512_blocks :: "rows \<times> rows \<times> rows \<times> rows \<Rightarrow> u32 list list" where
  "avx512_blocks w =
     (case w of (w1, w2, w3, w4) \<Rightarrow>
        [block_of w1 0, block_of w1 1, block_of w1 2, block_of w1 3,
         block_of w2 0, block_of w2 1, block_of w2 2, block_of w2 3,
         block_of w3 0, block_of w3 1, block_of w3 2, block_of w3 3,
         block_of w4 0, block_of w4 1, block_of w4 2, block_of w4 3])"

text \<open>What the loop body does to one register set: the row-aligned quarter round
  (the column round), then the diagonal round by lane rotation.\<close>

definition diagonal_round_rows :: "rows \<Rightarrow> rows" where
  "diagonal_round_rows r =
     (case r of (aVec, bVec, cVec, dVec) \<Rightarrow>
      let (bVec, cVec, dVec) = cc20_shift_lane_org (bVec, cVec, dVec) True;
          (aVec, bVec, cVec, dVec) = cc20_quarter_round_avx (aVec, bVec, cVec, dVec);
          (bVec, cVec, dVec) = cc20_shift_lane_org (bVec, cVec, dVec) False
      in (aVec, bVec, cVec, dVec))"

definition double_round_rows :: "rows \<Rightarrow> rows" where
  "double_round_rows r = diagonal_round_rows (cc20_quarter_round_avx r)"

text \<open>The register sets of a tier's stub at three points: after the state is loaded
  and replicated, after the ten iterations of the loop, and after the start state is
  added back (what the stub then writes).\<close>

fun tier_vector_len :: "tier \<Rightarrow> vector_len" where
  "tier_vector_len Narrow = AVX_128bit"
| "tier_vector_len Medium = AVX_256bit"
| "tier_vector_len Wide = AVX_512bit"

definition working_blocks :: "tier \<Rightarrow> memory \<Rightarrow> nat \<Rightarrow> u32 list list" where
  "working_blocks t mem state =
     (if t = Wide then avx512_blocks (snd (avx512_load_state mem state))
      else avx_blocks (tier_vector_len t) (snd (avx_load_state (tier_vector_len t) mem state)))"

definition rounds_blocks :: "tier \<Rightarrow> memory \<Rightarrow> nat \<Rightarrow> u32 list list" where
  "rounds_blocks t mem state =
     (if t = Wide then avx512_blocks (avx512_twoRounds 10 (snd (avx512_load_state mem state)))
      else avx_blocks (tier_vector_len t)
             (avx_twoRounds 10 (snd (avx_load_state (tier_vector_len t) mem state))))"

definition final_blocks :: "tier \<Rightarrow> memory \<Rightarrow> nat \<Rightarrow> u32 list list" where
  "final_blocks t mem state =
     (if t = Wide then
        (case avx512_load_state mem state of
           (saved, w) \<Rightarrow> avx512_blocks (avx512_add_state saved (avx512_twoRounds 10 w)))
      else
        (case avx_load_state (tier_vector_len t) mem state of
           (saved, w) \<Rightarrow>
             avx_blocks (tier_vector_len t) (avx_add_state saved (avx_twoRounds 10 w))))"

text \<open>The \<open>n\<close> bytes of memory at address \<open>result\<close>.\<close>

definition keystream_bytes :: "nat \<Rightarrow> memory \<Rightarrow> nat \<Rightarrow> 8 word list" where
  "keystream_bytes n mem result = map (\<lambda>x. mem (result + x)) [0..<n]"

text \<open>Lane-wise addition of two register sets (the \<^verbatim>\<open>vpaddd\<close> of each working register
  with its state register).\<close>

definition rows_add :: "rows \<Rightarrow> rows \<Rightarrow> rows" where
  "rows_add r r' =
     (case (r, r') of ((a, b, c, d), (a', b', c', d')) \<Rightarrow>
        (vpaddd a a', vpaddd b b', vpaddd c c', vpaddd d d'))"

text \<open>The reference key stream of \<open>n\<close> consecutive blocks: block \<open>i\<close> is the scalar block
  for the state with counter \<open>st ! 12 + i\<close>.\<close>

definition reference_stream :: "u32 list \<Rightarrow> nat \<Rightarrow> 8 word list" where
  "reference_stream st n =
     concat (map (\<lambda>i. ref_keystream_block (with_counter st (st ! 12 + of_nat i))) [0..<n])"

section \<open>The stubs under memory protection\<close>

text \<open>
  The stubs store through \<^verbatim>\<open>result\<close> without knowing how much memory the caller owns
  there. What a store does to memory that is not writable is the processor's matter: it
  raises a fault and the stub does not return. To state what a call does with a buffer of
  a given capacity, the writers are given here once more with each store checked against
  the set of writable addresses; \<open>None\<close> is the fault. The state and the add masks are
  taken to be readable, so the loading, the loop and the additions are the ones above.
\<close>

type_synonym protection = "nat \<Rightarrow> bool"

definition writable16 :: "protection \<Rightarrow> nat \<Rightarrow> bool" where
  "writable16 wr a = list_all wr [a..<a + 16]"

definition store128_prot :: "protection \<Rightarrow> memory option \<Rightarrow> nat \<Rightarrow> vec \<Rightarrow> memory option" where
  "store128_prot wr m a v =
     (case m of
        None \<Rightarrow> None
      | Some mem \<Rightarrow> if writable16 wr a then Some (store128 mem a v) else None)"

definition movdqu_store_prot ::
  "protection \<Rightarrow> memory option \<Rightarrow> nat \<Rightarrow> vec \<Rightarrow> memory option" where
  "movdqu_store_prot wr m a v = store128_prot wr m a (lane128 0 v)"

definition vextracti128_prot ::
  "protection \<Rightarrow> memory option \<Rightarrow> nat \<Rightarrow> vec \<Rightarrow> nat \<Rightarrow> memory option" where
  "vextracti128_prot wr m a v imm = store128_prot wr m a (lane128 imm v)"

definition vextracti32x4_prot ::
  "protection \<Rightarrow> memory option \<Rightarrow> nat \<Rightarrow> vec \<Rightarrow> nat \<Rightarrow> memory option" where
  "vextracti32x4_prot wr m a v imm = store128_prot wr m a (lane128 imm v)"

text \<open>Lines 225-256, the stores in the order of the source.\<close>

definition avx_write_keystream_prot ::
  "vector_len \<Rightarrow> protection \<Rightarrow> nat \<Rightarrow> rows \<times> rows \<Rightarrow> memory option \<Rightarrow> memory option" where
  "avx_write_keystream_prot vector_len wr result w mem =
     (case w of ((a1Vec, b1Vec, c1Vec, d1Vec), (a2Vec, b2Vec, c2Vec, d2Vec)) \<Rightarrow>
      if vector_len = AVX_128bit then
        let mem = movdqu_store_prot wr mem (result + 0) a1Vec;
            mem = movdqu_store_prot wr mem (result + 16) b1Vec;
            mem = movdqu_store_prot wr mem (result + 32) c1Vec;
            mem = movdqu_store_prot wr mem (result + 48) d1Vec;
            mem = movdqu_store_prot wr mem (result + 64) a2Vec;
            mem = movdqu_store_prot wr mem (result + 80) b2Vec;
            mem = movdqu_store_prot wr mem (result + 96) c2Vec;
            mem = movdqu_store_prot wr mem (result + 112) d2Vec
        in mem
      else
        let mem = vextracti128_prot wr mem (result + 0) a1Vec 0;
            mem = vextracti128_prot wr mem (result + 64) a1Vec 1;
            mem = vextracti128_prot wr mem (result + 16) b1Vec 0;
            mem = vextracti128_prot wr mem (result + 80) b1Vec 1;
            mem = vextracti128_prot wr mem (result + 32) c1Vec 0;
            mem = vextracti128_prot wr mem (result + 96) c1Vec 1;
            mem = vextracti128_prot wr mem (result + 48) d1Vec 0;
            mem = vextracti128_prot wr mem (result + 112) d1Vec 1;
            mem = vextracti128_prot wr mem (result + 128) a2Vec 0;
            mem = vextracti128_prot wr mem (result + 192) a2Vec 1;
            mem = vextracti128_prot wr mem (result + 144) b2Vec 0;
            mem = vextracti128_prot wr mem (result + 208) b2Vec 1;
            mem = vextracti128_prot wr mem (result + 160) c2Vec 0;
            mem = vextracti128_prot wr mem (result + 224) c2Vec 1;
            mem = vextracti128_prot wr mem (result + 176) d2Vec 0;
            mem = vextracti128_prot wr mem (result + 240) d2Vec 1
        in mem)"

text \<open>
  Modelled from the spec: \<^verbatim>\<open>MacroAssembler::cc20_keystream_collate_avx512\<close> is defined
  outside the given sources; the same sixteen stores as in \<open>cc20_keystream_collate_avx512\<close>
  above, each checked.
\<close>

definition cc20_keystream_collate_avx512_prot ::
  "protection \<Rightarrow> rows \<Rightarrow> nat \<Rightarrow> nat \<Rightarrow> memory option \<Rightarrow> memory option" where
  "cc20_keystream_collate_avx512_prot wr r baseAddr baseOffset mem =
     (case r of (aVec, bVec, cVec, dVec) \<Rightarrow>
      let mem = vextracti32x4_prot wr mem (baseAddr + baseOffset + 0) aVec 0;
          mem = vextracti32x4_prot wr mem (baseAddr + baseOffset + 64) aVec 1;
          mem = vextracti32x4_prot wr mem (baseAddr + baseOffset + 128) aVec 2;
          mem = vextracti32x4_prot wr mem (baseAddr + baseOffset + 192) aVec 3;
          mem = vextracti32x4_prot wr mem (baseAddr + baseOffset + 16) bVec 0;
          mem = vextracti32x4_prot wr mem (baseAddr + baseOffset + 80) bVec 1;
          mem = vextracti32x4_prot wr mem (baseAddr + baseOffset + 144) bVec 2;
          mem = vextracti32x4_prot wr mem (baseAddr + baseOffset + 208) bVec 3;
          mem = vextracti32x4_prot wr mem (baseAddr + baseOffset + 32) cVec 0;
          mem = vextracti32x4_prot wr mem (baseAddr + baseOffset + 96) cVec 1;
          mem = vextracti32x4_prot wr mem (baseAddr + baseOffset + 160) cVec 2;
          mem = vextracti32x4_prot wr mem (baseAddr + baseOffset + 224) cVec 3;
          mem = vextracti32x4_prot wr mem (baseAddr + baseOffset + 48) dVec 0;
          mem = vextracti32x4_prot wr mem (baseAddr + baseOffset + 112) dVec 1;
          mem = vextracti32x4_prot wr mem (baseAddr + baseOffset + 176) dVec 2;
          mem = vextracti32x4_prot wr mem (baseAddr + baseOffset + 240) dVec 3
      in mem)"

text \<open>Lines 410-418.\<close>

definition avx512_write_keystream_prot ::
  "protection \<Rightarrow> nat \<Rightarrow> rows \<times> rows \<times> rows \<times> rows \<Rightarrow> memory option \<Rightarrow> memory option" where
  "avx512_write_keystream_prot wr result w mem =
     (case w of ((a1Vec, b1Vec, c1Vec, d1Vec), (a2Vec, b2Vec, c2Vec, d2Vec),
          (a3Vec, b3Vec, c3Vec, d3Vec), (a4Vec, b4Vec, c4Vec, d4Vec)) \<Rightarrow>
      let mem = cc20_keystream_collate_avx512_prot wr (a1Vec, b1Vec, c1Vec, d1Vec) result 0 mem;
          mem = cc20_keystream_collate_avx512_prot wr (a2Vec, b2Vec, c2Vec, d2Vec) result 256 mem;
          mem = cc20_keystream_collate_avx512_prot wr (a3Vec, b3Vec, c3Vec, d3Vec) result 512 mem;
          mem = cc20_keystream_collate_avx512_prot wr (a4Vec, b4Vec, c4Vec, d4Vec) result 768 mem
      in mem)"

text \<open>The two stubs and their selection, with the checked writers. A call that is not
  stopped by a fault returns the memory and \<^verbatim>\<open>rax\<close>.\<close>

definition generate_chacha20Block_avx_prot ::
  "VM_Version \<Rightarrow> protection \<Rightarrow> nat \<Rightarrow> nat \<Rightarrow> memory \<Rightarrow> (memory \<times> nat) option" where
  "generate_chacha20Block_avx_prot vm wr state result mem =
     (let (vector_len, outlen) =
            (if supports_avx2 vm then (AVX_256bit, 256) else (AVX_128bit, 128));
          (saved, w) = avx_load_state vector_len mem state;
          w = avx_twoRounds 10 w;
          w = avx_add_state saved w;
          mem = avx_write_keystream_prot vector_len wr result w (Some mem)
      in map_option (\<lambda>mem. (mem, outlen)) mem)"

definition generate_chacha20Block_avx512_prot ::
  "protection \<Rightarrow> nat \<Rightarrow> nat \<Rightarrow> memory \<Rightarrow> (memory \<times> nat) option" where
  "generate_chacha20Block_avx512_prot wr state result mem =
     (let (saved, w) = avx512_load_state mem state;
          w = avx512_twoRounds 10 w;
          w = avx512_add_state saved w;
          mem = avx512_write_keystream_prot wr result w (Some mem)
      in map_option (\<lambda>mem. (mem, 1024)) mem)"

definition generate_prot ::
  "tier \<Rightarrow> protection \<Rightarrow> nat \<Rightarrow> nat \<Rightarrow> memory \<Rightarrow> (memory \<times> nat) option" where
  "generate_prot t wr state result mem =
     (if supports_evex (tier_vm t) then generate_chacha20Block_avx512_prot wr state result mem
      else generate_chacha20Block_avx_prot (tier_vm t) wr state result mem)"

section \<open>Concrete inputs\<close>

text \<open>The state of the block function test vector of RFC 8439, section 2.3.2 (key
  \<open>00 01 .. 1f\<close>, nonce \<open>00 00 00 09 00 00 00 4a 00 00 00 00\<close>, counter 1), the same state as
  bytes in memory at address 0, and the block the RFC gives for it.\<close>

definition rfc_state :: "u32 list" where
  "rfc_state = [
     0x61707865, 0x3320646e, 0x79622d32, 0x6b206574,
     0x03020100, 0x07060504, 0x0b0a0908, 0x0f0e0d0c,
     0x13121110, 0x17161514, 0x1b1a1918, 0x1f1e1d1c,
     0x00000001, 0x09000000, 0x4a000000, 0x00000000]"

definition rfc_state_bytes :: "8 word list" where
  "rfc_state_bytes = [
      0x65, 0x78, 0x70, 0x61, 0x6e, 0x64, 0x20, 0x33, 0x32, 0x2d, 0x62, 0x79, 0x74, 0x65, 0x20, 0x6b,
      0x00, 0x01, 0x02, 0x03, 0x04, 0x05, 0x06, 0x07, 0x08, 0x09, 0x0a, 0x0b, 0x0c, 0x0d, 0x0e, 0x0f,
      0x10, 0x11, 0x12, 0x13, 0x14, 0x15, 0x16, 0x17, 0x18, 0x19, 0x1a, 0x1b, 0x1c, 0x1d, 0x1e, 0x1f,
      0x01, 0x00, 0x00, 0x00, 0x00, 0x00, 0x00, 0x09, 0x00, 0x00, 0x00, 0x4a, 0x00, 0x00, 0x00, 0x00]"

definition rfc_memory :: memory where
  "rfc_memory = (\<lambda>a. if a < 64 then rfc_state_bytes ! a else 0)"

definition rfc_block :: "u32 list" where
  "rfc_block = [
     0xe4e7f110, 0x15593bd1, 0x1fdd0f50, 0xc47120a3,
     0xc7f4d1c7, 0x0368c033, 0x9aaa2204, 0x4e6cd4c3,
     0x466482d2, 0x09aa9f07, 0x05d7c214, 0xa2028bd9,
     0xd19c12b5, 0xb94e16de, 0xe883d0cb, 0x4e3c50a2]"

text \<open>The same memory with the counter word set to \<open>0xFFFFFFFF\<close>, and with one byte of
  the output region changed.\<close>

definition wrap_memory :: memory where
  "wrap_memory = (\<lambda>a. if 48 \<le> a \<and> a < 52 then 0xFF else rfc_memory a)"

definition dirty_memory :: memory where
  "dirty_memory = (\<lambda>a. if a = 191 then 0xAA else rfc_memory a)"

text \<open>A key stream buffer of capacity 16 at address 64, with two protections: one where
  the first 256 bytes of memory are writable (the buffer lies inside writable memory of
  the caller), one where nothing behind the buffer is writable.\<close>

definition small_buffer_capacity :: nat where
  "small_buffer_capacity = 16"

definition heap_writable :: protection where
  "heap_writable = (\<lambda>a. a < 256)"

definition buffer_only_writable :: protection where
  "buffer_only_writable = (\<lambda>a. a < 64 + small_buffer_capacity)"


section \<open>Lemmas\<close>

subsection \<open>Lanes and rows\<close>

lemma length4E:
  assumes "length x = 4"
  obtains x0 x1 x2 x3 where "x = [x0, x1, x2, x3]"
  using assms by (auto simp: eval_nat_numeral length_Suc_conv)

lemma lane128_vpaddd: "lane128 l (vpaddd x y) = vpaddd (lane128 l x) (lane128 l y)"
  by (simp add: lane128_def vpaddd_def take_map drop_map take_zip drop_zip)
lemma lane128_vpxor: "lane128 l (vpxor x y) = vpxor (lane128 l x) (lane128 l y)"
  by (simp add: lane128_def vpxor_def take_map drop_map take_zip drop_zip)
lemma lane128_vprold: "lane128 l (vprold x n) = vprold (lane128 l x) n"
  by (simp add: lane128_def vprold_def take_map drop_map)

lemma concat_chunk:
  "\<forall>x\<in>set xss. length x = 4 \<Longrightarrow> l < length xss \<Longrightarrow> take 4 (drop (4 * l) (concat xss)) = xss ! l"
proof (induction xss arbitrary: l)
  case Nil then show ?case by simp
next
  case (Cons x xss)
  show ?case
  proof (cases l)
    case 0 with Cons.prems show ?thesis by simp
  next
    case (Suc m)
    with Cons.prems have "take 4 (drop (4 * m) (concat xss)) = xss ! m"
      by (intro Cons.IH) auto
    with Suc Cons.prems show ?thesis by simp
  qed
qed

lemma length_lane128: "4 * l + 4 \<le> length v \<Longrightarrow> length (lane128 l v) = 4"
  by (simp add: lane128_def)

lemma lane128_rotate_lanes:
  assumes "length v = 4 * k" "l < k"
  shows "lane128 l (rotate_lanes n v) = rotate n (lane128 l v)"
proof -
  let ?xss = "map (\<lambda>l. rotate n (lane128 l v)) [0..<length v div 4]"
  have "\<forall>x\<in>set ?xss. length x = 4" using assms by (auto simp: lane128_def)
  moreover have "l < length ?xss" using assms by simp
  ultimately have "take 4 (drop (4 * l) (concat ?xss)) = ?xss ! l" by (rule concat_chunk)
  then show ?thesis using assms by (simp add: lane128_def rotate_lanes_def)
qed

lemma length_concat_chunks:
  "\<forall>x\<in>set xss. length x = 4 \<Longrightarrow> length (concat xss) = 4 * length xss"
  by (induction xss) auto

lemma length_rotate_lanes: 
  assumes "length v = 4 * k" 
  shows "length (rotate_lanes n v) = 4 * k"
proof -
  let ?xss = "map (\<lambda>l. rotate n (lane128 l v)) [0..<length v div 4]"
  have "\<forall>x\<in>set ?xss. length x = 4" using assms by (auto simp: lane128_def)
  then have "length (concat ?xss) = 4 * length ?xss" by (rule length_concat_chunks)
  then show ?thesis using assms by (simp add: rotate_lanes_def)
qed

lemma column_rows4:
  assumes "rows_wf 1 r"
  shows "flat (cc20_quarter_round_avx r) = ref_column_round (flat r)"
proof -
  obtain a b c d where r: "r = (a, b, c, d)" by (cases r) auto
  from assms r have "length a = 4" "length b = 4" "length c = 4" "length d = 4"
    by (simp_all add: rows_wf_def)
  then obtain a0 a1 a2 a3 b0 b1 b2 b3 c0 c1 c2 c3 d0 d1 d2 d3
    where "a = [a0, a1, a2, a3]" "b = [b0, b1, b2, b3]" "c = [c0, c1, c2, c3]" "d = [d0, d1, d2, d3]"
    by (elim length4E) 
  with r show ?thesis
    by (simp add: flat_def cc20_quarter_round_avx_def ref_column_round_def ref_QR_at_def
        ref_QR_def Let_def vpaddd_def vpxor_def vprold_def eval_nat_numeral)
qed


lemma rotate_lanes_row: "rotate_lanes n [x0, x1, x2, x3] = rotate n [x0, x1, x2, x3]"
  by (simp add: rotate_lanes_def lane128_def)

lemma rotate_row:
  "rotate (Suc 0) [x0, x1, x2, x3] = [x1, x2, x3, x0]"
  "rotate 2 [x0, x1, x2, x3] = [x2, x3, x0, x1]"
  "rotate 3 [x0, x1, x2, x3] = [x3, x0, x1, x2]"
  by (simp_all add: rotate_def numeral_2_eq_2 numeral_3_eq_3)

lemma shift4:
  "cc20_shift_lane_org ([b0, b1, b2, b3], [c0, c1, c2, c3], [d0, d1, d2, d3]) True =
     ([b1, b2, b3, b0], [c2, c3, c0, c1], [d3, d0, d1, d2])"
  "cc20_shift_lane_org ([b0, b1, b2, b3], [c0, c1, c2, c3], [d0, d1, d2, d3]) False =
     ([b3, b0, b1, b2], [c2, c3, c0, c1], [d1, d2, d3, d0])"
  by (simp_all add: cc20_shift_lane_org_def rotate_lanes_row rotate_row)

lemma qr4:
  "cc20_quarter_round_avx ([a0, a1, a2, a3], [b0, b1, b2, b3], [c0, c1, c2, c3], [d0, d1, d2, d3]) =
    (case ref_QR (a0, b0, c0, d0) of (a0, b0, c0, d0) \<Rightarrow>
     case ref_QR (a1, b1, c1, d1) of (a1, b1, c1, d1) \<Rightarrow>
     case ref_QR (a2, b2, c2, d2) of (a2, b2, c2, d2) \<Rightarrow>
     case ref_QR (a3, b3, c3, d3) of (a3, b3, c3, d3) \<Rightarrow>
       ([a0, a1, a2, a3], [b0, b1, b2, b3], [c0, c1, c2, c3], [d0, d1, d2, d3]))"
  by (simp add: cc20_quarter_round_avx_def ref_QR_def Let_def vpaddd_def vpxor_def vprold_def)

lemma diagonal_rows4:
  assumes "rows_wf 1 r"
  shows "flat (diagonal_round_rows r) = ref_diagonal_round (flat r)"
proof -
  obtain a b c d where r: "r = (a, b, c, d)" by (cases r) auto
  from assms r have "length a = 4" "length b = 4" "length c = 4" "length d = 4"
    by (simp_all add: rows_wf_def)
  then obtain a0 a1 a2 a3 b0 b1 b2 b3 c0 c1 c2 c3 d0 d1 d2 d3
    where "a = [a0, a1, a2, a3]" "b = [b0, b1, b2, b3]" "c = [c0, c1, c2, c3]" "d = [d0, d1, d2, d3]"
    by (elim length4E) 
  with r show ?thesis
    by (simp add: flat_def diagonal_round_rows_def shift4 qr4 ref_diagonal_round_def ref_QR_at_def
          eval_nat_numeral split: prod.split)
qed


lemma table_operands:
  "table_operand CC20_COUNTER_ADD_AVX 16 4 = [1, 0, 0, 0]"
  "table_operand CC20_COUNTER_ADD_AVX 0 8 = [0, 0, 0, 0, 1, 0, 0, 0]"
  "table_operand CC20_COUNTER_ADD_AVX 32 8 = [2, 0, 0, 0, 2, 0, 0, 0]"
  "table_operand CC20_COUNTER_ADD_AVX512 0 16 = [0, 0, 0, 0, 1, 0, 0, 0, 2, 0, 0, 0, 3, 0, 0, 0]"
  "table_operand CC20_COUNTER_ADD_AVX512 64 16 = [4, 0, 0, 0, 4, 0, 0, 0, 4, 0, 0, 0, 4, 0, 0, 0]"
  by (simp_all add: table_operand_def table_dwords_def CC20_COUNTER_ADD_AVX_def
        CC20_COUNTER_ADD_AVX512_def)

lemma cipher_state_eq:
  "cipher_state mem state =
     movdqu_load mem state @ movdqu_load mem (state + 16) @
     movdqu_load mem (state + 32) @ movdqu_load mem (state + 48)"
  by (simp add: cipher_state_def movdqu_load_def upt_rec[of _ "numeral n" for n]
        upt_rec[of _ "Suc n" for n] add.assoc)


lemma rows_wf_quarter_round: "rows_wf k r \<Longrightarrow> rows_wf k (cc20_quarter_round_avx r)"
  by (cases r) (simp add: rows_wf_def cc20_quarter_round_avx_def Let_def vpaddd_def vpxor_def
      vprold_def)

lemma rows_wf_diagonal: "rows_wf k r \<Longrightarrow> rows_wf k (diagonal_round_rows r)"
  by (cases r) (simp add: rows_wf_def diagonal_round_rows_def cc20_shift_lane_org_def
      cc20_quarter_round_avx_def Let_def vpaddd_def vpxor_def vprold_def length_rotate_lanes)

lemma rows_wf_double_round: "rows_wf k r \<Longrightarrow> rows_wf k (double_round_rows r)"
  by (simp add: double_round_rows_def rows_wf_diagonal rows_wf_quarter_round)

lemma rows_wf_lane: "rows_wf k r \<Longrightarrow> l < k \<Longrightarrow> rows_wf 1 (rows_lane l r)"
  by (cases r) (simp add: rows_wf_def rows_lane_def lane128_def)

lemma rows_lane_quarter_round:
  "rows_lane l (cc20_quarter_round_avx r) = cc20_quarter_round_avx (rows_lane l r)"
  by (cases r) (simp add: rows_lane_def cc20_quarter_round_avx_def Let_def lane128_vpaddd
      lane128_vpxor lane128_vprold)

lemma rows_lane_diagonal:
  assumes "rows_wf k r" "l < k"
  shows "rows_lane l (diagonal_round_rows r) = diagonal_round_rows (rows_lane l r)"
proof -
  obtain a b c d where r: "r = (a, b, c, d)" by (cases r) auto
  with assms have len: "length a = 4 * k" "length b = 4 * k" "length c = 4 * k" "length d = 4 * k"
    by (simp_all add: rows_wf_def)
  have rot: "lane128 l (rotate_lanes n v) = rotate_lanes n (lane128 l v)" if "length v = 4 * k" for n v
  proof -
    from that assms(2) have "length (lane128 l v) = 4" by (simp add: lane128_def)
    then obtain x0 x1 x2 x3 where "lane128 l v = [x0, x1, x2, x3]" by (rule length4E)
    then show ?thesis using that assms(2) by (simp add: lane128_rotate_lanes rotate_lanes_row)
  qed
  obtain b' c' d' where s1: "cc20_shift_lane_org (b, c, d) True = (b', c', d')"
    by (cases "cc20_shift_lane_org (b, c, d) True") auto
  then have len1: "length b' = 4 * k" "length c' = 4 * k" "length d' = 4 * k"
    using len by (auto simp: cc20_shift_lane_org_def length_rotate_lanes)
  have l1: "cc20_shift_lane_org (lane128 l b, lane128 l c, lane128 l d) True =
      (lane128 l b', lane128 l c', lane128 l d')"
    using s1 len by (auto simp: cc20_shift_lane_org_def rot)
  obtain a2 b2 c2 d2 where q: "cc20_quarter_round_avx (a, b', c', d') = (a2, b2, c2, d2)"
    by (cases "cc20_quarter_round_avx (a, b', c', d')") auto
  have "rows_wf k (a2, b2, c2, d2)"
    using rows_wf_quarter_round[of k "(a, b', c', d')"] len len1 q by (simp add: rows_wf_def)
  then have len2: "length b2 = 4 * k" "length c2 = 4 * k" "length d2 = 4 * k"
    by (simp_all add: rows_wf_def)
  have l2: "cc20_quarter_round_avx (lane128 l a, lane128 l b', lane128 l c', lane128 l d') =
      (lane128 l a2, lane128 l b2, lane128 l c2, lane128 l d2)"
    using rows_lane_quarter_round[of l "(a, b', c', d')"] q by (simp add: rows_lane_def)
  have l3: "cc20_shift_lane_org (lane128 l b2, lane128 l c2, lane128 l d2) False =
      (case cc20_shift_lane_org (b2, c2, d2) False of
         (b3, c3, d3) \<Rightarrow> (lane128 l b3, lane128 l c3, lane128 l d3))"
    using len2 by (simp add: cc20_shift_lane_org_def rot)
  show ?thesis
    by (simp add: r diagonal_round_rows_def rows_lane_def s1 l1 q l2 l3 split: prod.split)
qed

lemma block_of_double_round:
  assumes "rows_wf k r" "l < k"
  shows "block_of (double_round_rows r) l = ref_double_round (block_of r l)"
proof -
  have wq: "rows_wf k (cc20_quarter_round_avx r)" using assms(1) by (rule rows_wf_quarter_round)
  have "block_of (double_round_rows r) l =
      flat (diagonal_round_rows (rows_lane l (cc20_quarter_round_avx r)))"
    by (simp add: block_of_def double_round_rows_def rows_lane_diagonal[OF wq assms(2)])
  also have "\<dots> = ref_diagonal_round (flat (rows_lane l (cc20_quarter_round_avx r)))"
    by (rule diagonal_rows4) (rule rows_wf_lane[OF wq assms(2)])
  also have "flat (rows_lane l (cc20_quarter_round_avx r)) = ref_column_round (flat (rows_lane l r))"
    unfolding rows_lane_quarter_round
    by (rule column_rows4) (rule rows_wf_lane[OF assms])
  finally show ?thesis by (simp add: ref_double_round_def block_of_def)
qed

lemma rows_wf_funpow: "rows_wf k r \<Longrightarrow> rows_wf k ((double_round_rows ^^ n) r)"
  by (induction n) (simp_all add: rows_wf_double_round)

lemma block_of_funpow:
  assumes "rows_wf k r" "l < k"
  shows "block_of ((double_round_rows ^^ n) r) l = (ref_double_round ^^ n) (block_of r l)"
proof (induction n)
  case 0 show ?case by simp
next
  case (Suc n)
  have "block_of (double_round_rows ((double_round_rows ^^ n) r)) l =
      ref_double_round (block_of ((double_round_rows ^^ n) r) l)"
    by (rule block_of_double_round) (rule rows_wf_funpow[OF assms(1)], rule assms(2))
  with Suc show ?case by simp
qed


lemma avx_twoRounds_body_eq:
  "avx_twoRounds_body (w1, w2) = (double_round_rows w1, double_round_rows w2)"
  by (simp add: avx_twoRounds_body_def double_round_rows_def diagonal_round_rows_def Let_def
        split_def)

lemma avx_twoRounds_eq:
  "avx_twoRounds n (w1, w2) = ((double_round_rows ^^ n) w1, (double_round_rows ^^ n) w2)"
  by (induction n arbitrary: w1 w2) (simp_all add: avx_twoRounds_body_eq funpow_swap1)

lemma avx512_twoRounds_body_eq:
  "avx512_twoRounds_body (w1, w2, w3, w4) =
     (double_round_rows w1, double_round_rows w2, double_round_rows w3, double_round_rows w4)"
  by (simp add: avx512_twoRounds_body_def double_round_rows_def diagonal_round_rows_def Let_def
        split_def)

lemma avx512_twoRounds_eq:
  "avx512_twoRounds n (w1, w2, w3, w4) =
     ((double_round_rows ^^ n) w1, (double_round_rows ^^ n) w2,
      (double_round_rows ^^ n) w3, (double_round_rows ^^ n) w4)"
  by (induction n arbitrary: w1 w2 w3 w4) (simp_all add: avx512_twoRounds_body_eq funpow_swap1)

subsection \<open>The state replicator\<close>

lemma list16_update12:
  "[w0, w1, w2, w3, w4, w5, w6, w7, w8, w9, w10, w11, w12, w13, w14, w15][12 := x] =
   [w0, w1, w2, w3, w4, w5, w6, w7, w8, w9, w10, w11, x, w13, w14, w15]"
  "[w0, w1, w2, w3, w4, w5, w6, w7, w8, w9, w10, w11, w12, w13, w14, w15] ! 12 = w12"
  by (simp_all add: eval_nat_numeral)

lemma working_blocks_Narrow:
  "working_blocks Narrow mem state =
     (let st = cipher_state mem state in [st, with_counter st (st ! 12 + 1)])"
  by (simp add: working_blocks_def avx_load_state_def Let_def movdqu_load_def vpaddd_def
      table_operands avx_blocks_def block_of_def rows_lane_def flat_def lane128_def
      cipher_state_eq with_counter_def list16_update12)

lemma working_blocks_Medium:
  "working_blocks Medium mem state =
     (let st = cipher_state mem state in
      [st, with_counter st (st ! 12 + 1), with_counter st (st ! 12 + 2),
       with_counter st (st ! 12 + 3)])"
  by (simp add: working_blocks_def avx_load_state_def Let_def movdqu_load_def vpaddd_def
      vbroadcastf128_def
      table_operands avx_blocks_def block_of_def rows_lane_def flat_def lane128_def
      cipher_state_eq with_counter_def list16_update12)

lemma working_blocks_Wide:
  "working_blocks Wide mem state =
     (let st = cipher_state mem state in
      [st, with_counter st (st ! 12 + 1), with_counter st (st ! 12 + 2),
       with_counter st (st ! 12 + 3), with_counter st (st ! 12 + 4),
       with_counter st (st ! 12 + 5), with_counter st (st ! 12 + 6),
       with_counter st (st ! 12 + 7), with_counter st (st ! 12 + 8),
       with_counter st (st ! 12 + 9), with_counter st (st ! 12 + 10),
       with_counter st (st ! 12 + 11), with_counter st (st ! 12 + 12),
       with_counter st (st ! 12 + 13), with_counter st (st ! 12 + 14),
       with_counter st (st ! 12 + 15)])"
  by (simp add: working_blocks_def avx512_load_state_def Let_def movdqu_load_def vpaddd_def
      evbroadcasti32x4_def
      table_operands avx512_blocks_def block_of_def rows_lane_def flat_def lane128_def
      cipher_state_eq with_counter_def list16_update12)

lemma with_counter_same: "length st = 16 \<Longrightarrow> with_counter st (st ! 12 + 0) = st"
  by (simp add: with_counter_def)

lemma length_cipher_state: "length (cipher_state mem state) = 16"
  by (simp add: cipher_state_def)

lemma working_blocks_nth:
  assumes "i < tier_blocks t"
  shows "working_blocks t mem state ! i =
     with_counter (cipher_state mem state) (cipher_state mem state ! 12 + of_nat i)"
proof (cases t)
  case Narrow
  with assms have "i = 0 \<or> i = 1" by simp arith
  then show ?thesis
    using with_counter_same[OF length_cipher_state, of mem state]
    by (auto simp: Narrow working_blocks_Narrow Let_def)
next
  case Medium
  with assms have "i = 0 \<or> i = 1 \<or> i = 2 \<or> i = 3" by simp arith
  then show ?thesis
    using with_counter_same[OF length_cipher_state, of mem state]
    by (auto simp: Medium working_blocks_Medium Let_def)
next
  case Wide
  define g l where "g = i div 4" and "l = i mod 4"
  with assms Wide have i: "i = 4 * g + l" and "g < 4" and "l < 4" by auto
  then have "g = 0 \<or> g = 1 \<or> g = 2 \<or> g = 3" "l = 0 \<or> l = 1 \<or> l = 2 \<or> l = 3"
    by arith+
  then show ?thesis
    using with_counter_same[OF length_cipher_state, of mem state]
    by (elim disjE) (simp_all add: i Wide working_blocks_Wide Let_def)
qed

lemma length_working_blocks: "length (working_blocks t mem state) = tier_blocks t"
  by (cases t) (simp_all add: working_blocks_Narrow working_blocks_Medium working_blocks_Wide Let_def)

subsection \<open>The feed-forward addition\<close>

lemma block_of_rows_add:
  assumes "rows_wf k r" "rows_wf k r'" "l < k"
  shows "block_of (rows_add r r') l = map2 (+) (block_of r l) (block_of r' l)"
proof -
  obtain a b c d where r: "r = (a, b, c, d)" by (cases r) auto
  obtain a' b' c' d' where r': "r' = (a', b', c', d')" by (cases r') auto
  have len: "length (lane128 l v) = 4" if "length v = 4 * k" for v :: vec
    using that assms(3) by (simp add: lane128_def)
  from assms r r' have
    "length (lane128 l a) = length (lane128 l a')" "length (lane128 l b) = length (lane128 l b')"
    "length (lane128 l c) = length (lane128 l c')"
    by (simp_all add: rows_wf_def len)
  then show ?thesis
    unfolding r r' block_of_def rows_add_def rows_lane_def flat_def prod.case lane128_vpaddd
    by (simp add: vpaddd_def)
qed

lemma avx_add_state_eq:
  "avx_add_state (fst (avx_load_state vl mem state)) (x1, x2) =
     (rows_add x1 (fst (snd (avx_load_state vl mem state))),
      rows_add x2 (snd (snd (avx_load_state vl mem state))))"
  by (cases x1; cases x2) (simp add: avx_load_state_def avx_add_state_def Let_def rows_add_def)

lemma avx512_add_state_eq:
  "avx512_add_state (fst (avx512_load_state mem state)) (x1, x2, x3, x4) =
     (case snd (avx512_load_state mem state) of (w1, w2, w3, w4) \<Rightarrow>
       (rows_add x1 w1, rows_add x2 w2, rows_add x3 w3, rows_add x4 w4))"
  by (cases x1; cases x2; cases x3; cases x4)
     (simp add: avx512_load_state_def avx512_add_state_def Let_def rows_add_def)

lemma avx_load_state_wf:
  "rows_wf (if vl = AVX_128bit then 1 else 2) (fst (snd (avx_load_state vl mem state)))"
  "rows_wf (if vl = AVX_128bit then 1 else 2) (snd (snd (avx_load_state vl mem state)))"
  by (simp_all add: avx_load_state_def Let_def rows_wf_def movdqu_load_def vbroadcastf128_def
      vpaddd_def table_operands)

lemma avx512_load_state_wf:
  "case snd (avx512_load_state mem state) of (w1, w2, w3, w4) \<Rightarrow>
     rows_wf 4 w1 \<and> rows_wf 4 w2 \<and> rows_wf 4 w3 \<and> rows_wf 4 w4"
  by (simp add: avx512_load_state_def Let_def rows_wf_def movdqu_load_def evbroadcasti32x4_def
      vpaddd_def table_operands)

lemma avx_blocks_rounds:
  assumes "rows_wf k w1" "rows_wf k w2" "k = (if vl = AVX_128bit then 1 else 2)"
  shows "avx_blocks vl (avx_twoRounds n (w1, w2)) =
     map (ref_double_round ^^ n) (avx_blocks vl (w1, w2))"
proof (cases "vl = AVX_128bit")
  case True
  with assms have "rows_wf 1 w1" "rows_wf 1 w2" by simp_all
  then show ?thesis
    using True by (simp add: avx_twoRounds_eq avx_blocks_def block_of_funpow[where k = 1])
next
  case False
  with assms have "rows_wf 2 w1" "rows_wf 2 w2" by simp_all
  then show ?thesis
    using False by (simp add: avx_twoRounds_eq avx_blocks_def block_of_funpow[where k = 2])
qed

lemma avx512_blocks_rounds:
  assumes "rows_wf 4 w1" "rows_wf 4 w2" "rows_wf 4 w3" "rows_wf 4 w4"
  shows "avx512_blocks (avx512_twoRounds n (w1, w2, w3, w4)) =
     map (ref_double_round ^^ n) (avx512_blocks (w1, w2, w3, w4))"
  using assms by (simp add: avx512_twoRounds_eq avx512_blocks_def block_of_funpow[where k = 4])

lemma avx_blocks_add:
  assumes "rows_wf k x1" "rows_wf k x2" "rows_wf k w1" "rows_wf k w2"
    "k = (if vl = AVX_128bit then 1 else 2)"
  shows "avx_blocks vl (rows_add x1 w1, rows_add x2 w2) =
     map2 (map2 (+)) (avx_blocks vl (x1, x2)) (avx_blocks vl (w1, w2))"
proof (cases "vl = AVX_128bit")
  case True
  with assms have "rows_wf 1 x1" "rows_wf 1 x2" "rows_wf 1 w1" "rows_wf 1 w2" by simp_all
  then show ?thesis
    using True by (simp add: avx_blocks_def block_of_rows_add[where k = 1])
next
  case False
  with assms have "rows_wf 2 x1" "rows_wf 2 x2" "rows_wf 2 w1" "rows_wf 2 w2" by simp_all
  then show ?thesis
    using False by (simp add: avx_blocks_def block_of_rows_add[where k = 2])
qed

lemma avx512_blocks_add:
  assumes "rows_wf 4 x1" "rows_wf 4 x2" "rows_wf 4 x3" "rows_wf 4 x4"
    "rows_wf 4 w1" "rows_wf 4 w2" "rows_wf 4 w3" "rows_wf 4 w4"
  shows "avx512_blocks (rows_add x1 w1, rows_add x2 w2, rows_add x3 w3, rows_add x4 w4) =
     map2 (map2 (+)) (avx512_blocks (x1, x2, x3, x4)) (avx512_blocks (w1, w2, w3, w4))"
  using assms by (simp add: avx512_blocks_def block_of_rows_add[where k = 4])

lemma rounds_blocks_eq:
  "rounds_blocks t mem state = map (ref_double_round ^^ 10) (working_blocks t mem state)"
proof (cases "t = Wide")
  case True
  obtain w1 w2 w3 w4 where w: "snd (avx512_load_state mem state) = (w1, w2, w3, w4)"
    by (cases "snd (avx512_load_state mem state)") auto
  with avx512_load_state_wf[of mem state]
  have wf: "rows_wf 4 w1" "rows_wf 4 w2" "rows_wf 4 w3" "rows_wf 4 w4" by simp_all
  show ?thesis
    unfolding rounds_blocks_def working_blocks_def w
    using True avx512_blocks_rounds[OF wf, of 10] by simp
next
  case False
  define vl where "vl = tier_vector_len t"
  obtain w1 w2 where w: "snd (avx_load_state vl mem state) = (w1, w2)"
    by (cases "snd (avx_load_state vl mem state)") auto
  from avx_load_state_wf[of vl mem state] w
  have wf: "rows_wf (if vl = AVX_128bit then 1 else 2) w1"
    "rows_wf (if vl = AVX_128bit then 1 else 2) w2" by simp_all
  show ?thesis
    unfolding rounds_blocks_def working_blocks_def vl_def[symmetric] w
    using False avx_blocks_rounds[OF wf refl, of 10] by simp
qed

lemma final_blocks_eq:
  "final_blocks t mem state =
     map2 (map2 (+)) (rounds_blocks t mem state) (working_blocks t mem state)"
proof (cases "t = Wide")
  case True
  obtain sv w1 w2 w3 w4 where ld: "avx512_load_state mem state = (sv, w1, w2, w3, w4)"
    by (cases "avx512_load_state mem state") auto
  with avx512_load_state_wf[of mem state]
  have wf: "rows_wf 4 w1" "rows_wf 4 w2" "rows_wf 4 w3" "rows_wf 4 w4" by simp_all
  note wf' = wf[THEN rows_wf_funpow[where n = 10]]
  have add: "avx512_add_state sv (x1, x2, x3, x4) =
      (rows_add x1 w1, rows_add x2 w2, rows_add x3 w3, rows_add x4 w4)" for x1 x2 x3 x4
    using avx512_add_state_eq[of mem state x1 x2 x3 x4] by (simp add: ld)
  show ?thesis
    unfolding final_blocks_def rounds_blocks_def working_blocks_def ld snd_conv prod.case
      avx512_twoRounds_eq add
    using True avx512_blocks_add[OF wf' wf] by (simp add: avx512_twoRounds_eq del: funpow.simps)
next
  case False
  define vl where "vl = tier_vector_len t"
  obtain sv w1 w2 where ld: "avx_load_state vl mem state = (sv, w1, w2)"
    by (cases "avx_load_state vl mem state") auto
  from avx_load_state_wf[of vl mem state] ld
  have wf: "rows_wf (if vl = AVX_128bit then 1 else 2) w1"
    "rows_wf (if vl = AVX_128bit then 1 else 2) w2" by simp_all
  note wf' = wf[THEN rows_wf_funpow[where n = 10]]
  have add: "avx_add_state sv (x1, x2) = (rows_add x1 w1, rows_add x2 w2)" for x1 x2
    using avx_add_state_eq[of vl mem state x1 x2] by (simp add: ld)
  show ?thesis
    unfolding final_blocks_def rounds_blocks_def working_blocks_def vl_def[symmetric] ld
      snd_conv prod.case avx_twoRounds_eq add
    using False avx_blocks_add[OF wf' wf refl] by (simp add: avx_twoRounds_eq del: funpow.simps)
qed

subsection \<open>The writers\<close>

lemma less4_cases: "(p::nat) < 4 \<Longrightarrow> p = 0 \<or> p = 1 \<or> p = 2 \<or> p = 3" by arith
lemma less2_cases: "(p::nat) < 2 \<Longrightarrow> p = 0 \<or> p = 1" by arith

lemma store128_in:
  "a \<le> x \<Longrightarrow> x < a + 16 \<Longrightarrow>
   store128 mem a v x = byte_of (v ! ((x - a) div 4)) ((x - a) mod 4)"
  by (simp add: store128_def)

lemma store128_out: "x < a \<or> a + 16 \<le> x \<Longrightarrow> store128 mem a v x = mem x"
  by (auto simp: store128_def)

lemma store128_at:
  "s < 4 \<Longrightarrow> b < 4 \<Longrightarrow> store128 mem a v (a + (4 * s + b)) = byte_of (v ! s) b"
  by (simp add: store128_def)

lemma block_of_nth:
  assumes "rows_wf k (a, b, c, d)" "l < k" "s < 4"
  shows "block_of (a, b, c, d) l ! s = lane128 l a ! s"
    "block_of (a, b, c, d) l ! (4 + s) = lane128 l b ! s"
    "block_of (a, b, c, d) l ! (8 + s) = lane128 l c ! s"
    "block_of (a, b, c, d) l ! (12 + s) = lane128 l d ! s"
proof -
  have len: "length (lane128 l v) = 4" if "length v = 4 * k" for v :: vec
    using that assms(2) by (simp add: lane128_def)
  from assms(1) have "length (lane128 l a) = 4" "length (lane128 l b) = 4"
    "length (lane128 l c) = 4" "length (lane128 l d) = 4"
    by (simp_all add: rows_wf_def len)
  then show "block_of (a, b, c, d) l ! s = lane128 l a ! s"
    "block_of (a, b, c, d) l ! (4 + s) = lane128 l b ! s"
    "block_of (a, b, c, d) l ! (8 + s) = lane128 l c ! s"
    "block_of (a, b, c, d) l ! (12 + s) = lane128 l d ! s"
    using assms(3) by (simp_all add: block_of_def rows_lane_def flat_def nth_append)
qed

lemma avx128_write_at:
  assumes "rows_wf 1 w1" "rows_wf 1 w2" "i < 2" "p < 4" "s < 4" "b < 4"
  shows "avx_write_keystream AVX_128bit result (w1, w2) mem
           (result + (64 * i + 16 * p + 4 * s + b)) =
         byte_of (avx_blocks AVX_128bit (w1, w2) ! i ! (4 * p + s)) b"
proof -
  obtain a1 b1 c1 d1 where w1: "w1 = (a1, b1, c1, d1)" by (cases w1) auto
  obtain a2 b2 c2 d2 where w2: "w2 = (a2, b2, c2, d2)" by (cases w2) auto
  note bn = block_of_nth[OF assms(1)[unfolded w1] _ assms(5)]
     block_of_nth[OF assms(2)[unfolded w2] _ assms(5)]
  from assms(3,4) less2_cases[of i] less4_cases[of p] 
  have "i = 0 \<or> i = 1" "p = 0 \<or> p = 1 \<or> p = 2 \<or> p = 3" by simp_all
  then show ?thesis
    using assms(5,6) 
    by (elim disjE) (simp_all add: w1 w2 avx_write_keystream_def Let_def movdqu_store_def store128_def
        avx_blocks_def bn)
qed



lemma avx256_write_at:
  assumes "rows_wf 2 w1" "rows_wf 2 w2" "i < 4" "p < 4" "s < 4" "b < 4"
  shows "avx_write_keystream AVX_256bit result (w1, w2) mem
           (result + (64 * i + 16 * p + 4 * s + b)) =
         byte_of (avx_blocks AVX_256bit (w1, w2) ! i ! (4 * p + s)) b"
proof -
  obtain a1 b1 c1 d1 where w1: "w1 = (a1, b1, c1, d1)" by (cases w1) auto
  obtain a2 b2 c2 d2 where w2: "w2 = (a2, b2, c2, d2)" by (cases w2) auto
  note bn = block_of_nth[OF assms(1)[unfolded w1] _ assms(5)]
     block_of_nth[OF assms(2)[unfolded w2] _ assms(5)]
  from assms(3,4) less4_cases[of i] less4_cases[of p] 
  have "i = 0 \<or> i = 1 \<or> i = 2 \<or> i = 3" "p = 0 \<or> p = 1 \<or> p = 2 \<or> p = 3" by simp_all
  then show ?thesis
    using assms(5,6) 
    by (elim disjE) (simp_all add: w1 w2 avx_write_keystream_def Let_def vextracti128_def
        store128_def avx_blocks_def bn)
qed


lemma collate_at:
  assumes "rows_wf 4 r" "l < 4" "p < 4" "s < 4" "b < 4"
  shows "cc20_keystream_collate_avx512 r baseAddr baseOffset mem
           (baseAddr + baseOffset + (64 * l + 16 * p + 4 * s + b)) =
         byte_of (block_of r l ! (4 * p + s)) b"
proof -
  obtain a1 b1 c1 d1 where r: "r = (a1, b1, c1, d1)" by (cases r) auto
  note bn = block_of_nth[OF assms(1)[unfolded r] _ assms(4)]
  from assms(2,3) less4_cases[of l] less4_cases[of p] 
  have "l = 0 \<or> l = 1 \<or> l = 2 \<or> l = 3" "p = 0 \<or> p = 1 \<or> p = 2 \<or> p = 3" by simp_all
  then show ?thesis
    using assms(4,5) 
    by (elim disjE) (simp_all add: r cc20_keystream_collate_avx512_def Let_def vextracti32x4_def
        store128_def bn)
qed


lemma avx_write_frame:
  assumes "x < result \<or> result + (if vl = AVX_128bit then 128 else 256) \<le> x"
  shows "avx_write_keystream vl result w mem x = mem x"
proof -
  obtain a1 b1 c1 d1 a2 b2 c2 d2 where w: "w = ((a1, b1, c1, d1), (a2, b2, c2, d2))"
    by (cases w) auto
  from assms show ?thesis
  proof
    assume "x < result"
    then show ?thesis
      by (simp add: w avx_write_keystream_def Let_def movdqu_store_def vextracti128_def
          store128_def)
  next
    assume "result + (if vl = AVX_128bit then 128 else 256) \<le> x"
    then show ?thesis
      by (cases "vl = AVX_128bit")
         (simp_all add: w avx_write_keystream_def Let_def movdqu_store_def vextracti128_def
          store128_def)
  qed
qed

lemma collate_frame:
  assumes "x < baseAddr + baseOffset \<or> baseAddr + baseOffset + 256 \<le> x"
  shows "cc20_keystream_collate_avx512 r baseAddr baseOffset mem x = mem x"
proof -
  obtain a1 b1 c1 d1 where r: "r = (a1, b1, c1, d1)" by (cases r) auto
  from assms show ?thesis
  proof
    assume "x < baseAddr + baseOffset"
    then show ?thesis
      by (simp add: r cc20_keystream_collate_avx512_def Let_def vextracti32x4_def store128_def)
  next
    assume "baseAddr + baseOffset + 256 \<le> x"
    then show ?thesis
      by (simp add: r cc20_keystream_collate_avx512_def Let_def vextracti32x4_def store128_def)
  qed
qed

lemma avx512_write_at:
  assumes "rows_wf 4 w1" "rows_wf 4 w2" "rows_wf 4 w3" "rows_wf 4 w4"
    "i < 16" "p < 4" "s < 4" "b < 4"
  shows "avx512_write_keystream result (w1, w2, w3, w4) mem
           (result + (64 * i + 16 * p + 4 * s + b)) =
         byte_of (avx512_blocks (w1, w2, w3, w4) ! i ! (4 * p + s)) b"
proof -
  define g l where "g = i div 4" and "l = i mod 4"
  then have i: "i = 4 * g + l" and l: "l < 4" and "g < 4" using assms(5) by auto
  then have g: "g = 0 \<or> g = 1 \<or> g = 2 \<or> g = 3" by arith
  from l have l': "l = 0 \<or> l = 1 \<or> l = 2 \<or> l = 3" by arith
  define off where "off = 64 * l + 16 * p + 4 * s + b"
  have off: "off < 256" using l assms(6-8) by (simp add: off_def)
  have addr: "result + (64 * i + 16 * p + 4 * s + b) = result + 256 * g + off"
    by (simp add: i off_def)
  have at: "cc20_keystream_collate_avx512 r result (256 * g) m (result + 256 * g + off) =
      byte_of (block_of r l ! (4 * p + s)) b" if "rows_wf 4 r" for r m
    unfolding off_def by (rule collate_at[OF that l assms(6-8)])
  have blk: "avx512_blocks (w1, w2, w3, w4) ! i = block_of ([w1, w2, w3, w4] ! g) l"
    using g l' by (elim disjE) (simp_all add: i avx512_blocks_def)
  from g show ?thesis
    unfolding addr blk
    using off at[OF assms(1)] at[OF assms(2)] at[OF assms(3)] at[OF assms(4)]
    by (elim disjE) (simp_all add: avx512_write_keystream_def Let_def collate_frame)
qed


lemma avx512_write_frame:
  assumes "x < result \<or> result + 1024 \<le> x"
  shows "avx512_write_keystream result w mem x = mem x"
proof -
  obtain w1 w2 w3 w4 where w: "w = (w1, w2, w3, w4)" by (cases w) auto
  from assms show ?thesis
  proof
    assume "x < result"
    then show ?thesis by (simp add: w avx512_write_keystream_def Let_def collate_frame)
  next
    assume "result + 1024 \<le> x"
    then show ?thesis by (simp add: w avx512_write_keystream_def Let_def collate_frame)
  qed
qed

subsection \<open>The stubs as a whole\<close>

lemma rows_wf_add: "rows_wf k r \<Longrightarrow> rows_wf k r' \<Longrightarrow> rows_wf k (rows_add r r')"
  by (cases r; cases r') (simp add: rows_wf_def rows_add_def vpaddd_def)

lemma generate_snd: "snd (generate t state result mem) = tier_blocks t * 64"
  by (cases t)
     (simp_all add: generate_def generate_chacha_stubs_def generate_chacha20Block_avx_def
        generate_chacha20Block_avx512_def Let_def split_def)

lemma generate_avx:
  assumes "t \<noteq> Wide"
  shows "fst (generate t state result mem) =
     avx_write_keystream (tier_vector_len t) result
       (avx_add_state (fst (avx_load_state (tier_vector_len t) mem state))
          (avx_twoRounds 10 (snd (avx_load_state (tier_vector_len t) mem state)))) mem"
  using assms
  by (cases t)
     (simp_all add: generate_def generate_chacha_stubs_def generate_chacha20Block_avx_def
        Let_def split_def)

lemma generate_avx512:
  "fst (generate Wide state result mem) =
     avx512_write_keystream result
       (avx512_add_state (fst (avx512_load_state mem state))
          (avx512_twoRounds 10 (snd (avx512_load_state mem state)))) mem"
  by (simp add: generate_def generate_chacha_stubs_def generate_chacha20Block_avx512_def
        Let_def split_def)

lemma generate_frame:
  assumes "x < result \<or> result + tier_blocks t * 64 \<le> x"
  shows "fst (generate t state result mem) x = mem x"
proof (cases t)
  case Narrow
  with assms show ?thesis by (simp add: generate_avx avx_write_frame)
next
  case Medium
  with assms show ?thesis by (simp add: generate_avx avx_write_frame)
next
  case Wide
  with assms show ?thesis by (simp add: generate_avx512 avx512_write_frame)
qed

lemma generate_at:
  assumes "i < tier_blocks t" "p < 4" "s < 4" "b < 4"
  shows "fst (generate t state result mem) (result + (64 * i + 16 * p + 4 * s + b)) =
     byte_of (final_blocks t mem state ! i ! (4 * p + s)) b"
proof (cases "t = Wide")
  case True
  obtain sv w1 w2 w3 w4 where ld: "avx512_load_state mem state = (sv, w1, w2, w3, w4)"
    by (cases "avx512_load_state mem state") auto
  with avx512_load_state_wf[of mem state]
  have wf: "rows_wf 4 w1" "rows_wf 4 w2" "rows_wf 4 w3" "rows_wf 4 w4" by simp_all
  note wf' = wf[THEN rows_wf_funpow[where n = 10]]
  note wfa = rows_wf_add[OF wf'(1) wf(1)] rows_wf_add[OF wf'(2) wf(2)]
    rows_wf_add[OF wf'(3) wf(3)] rows_wf_add[OF wf'(4) wf(4)]
  have add: "avx512_add_state sv (x1, x2, x3, x4) =
      (rows_add x1 w1, rows_add x2 w2, rows_add x3 w3, rows_add x4 w4)" for x1 x2 x3 x4
    using avx512_add_state_eq[of mem state x1 x2 x3 x4] by (simp add: ld)
  from assms(1) True have i: "i < 16" by simp
  show ?thesis
    unfolding True generate_avx512 final_blocks_def ld fst_conv snd_conv prod.case
      avx512_twoRounds_eq add
    using avx512_write_at[OF wfa i assms(2-4)] by simp
next
  case False
  define vl where "vl = tier_vector_len t"
  obtain sv w1 w2 where ld: "avx_load_state vl mem state = (sv, w1, w2)"
    by (cases "avx_load_state vl mem state") auto
  from avx_load_state_wf[of vl mem state] ld
  have wf: "rows_wf (if vl = AVX_128bit then 1 else 2) w1"
    "rows_wf (if vl = AVX_128bit then 1 else 2) w2" by simp_all
  note wf' = wf[THEN rows_wf_funpow[where n = 10]]
  note wfa = rows_wf_add[OF wf'(1) wf(1)] rows_wf_add[OF wf'(2) wf(2)]
  have add: "avx_add_state sv (x1, x2) = (rows_add x1 w1, rows_add x2 w2)" for x1 x2
    using avx_add_state_eq[of vl mem state x1 x2] by (simp add: ld)
  have eq: "fst (generate t state result mem) =
      avx_write_keystream vl result
        (rows_add ((double_round_rows ^^ 10) w1) w1, rows_add ((double_round_rows ^^ 10) w2) w2) mem"
    unfolding generate_avx[OF False] vl_def[symmetric] ld fst_conv snd_conv avx_twoRounds_eq add ..
  have fb: "final_blocks t mem state =
      avx_blocks vl
        (rows_add ((double_round_rows ^^ 10) w1) w1, rows_add ((double_round_rows ^^ 10) w2) w2)"
    unfolding final_blocks_def vl_def[symmetric] ld prod.case avx_twoRounds_eq add
    using False by simp
  show ?thesis
  proof (cases t)
    case Narrow
    then have vl: "vl = AVX_128bit" by (simp add: vl_def)
    from assms(1) Narrow have i: "i < 2" by simp
    from wfa vl have "rows_wf 1 (rows_add ((double_round_rows ^^ 10) w1) w1)"
      "rows_wf 1 (rows_add ((double_round_rows ^^ 10) w2) w2)" by simp_all
    from avx128_write_at[OF this i assms(2-4)] show ?thesis
      unfolding eq fb vl .
  next
    case Medium
    then have vl: "vl = AVX_256bit" by (simp add: vl_def)
    from assms(1) Medium have i: "i < 4" by simp
    from wfa vl have "rows_wf 2 (rows_add ((double_round_rows ^^ 10) w1) w1)"
      "rows_wf 2 (rows_add ((double_round_rows ^^ 10) w2) w2)" by simp_all
    from avx256_write_at[OF this i assms(2-4)] show ?thesis
      unfolding eq fb vl .
  next
    case Wide
    with False show ?thesis by simp
  qed
qed

lemma length_ref_QR_at: "length (ref_QR_at i j k l s) = length s"
  by (simp add: ref_QR_at_def split: prod.split)

lemma length_ref_double_round: "length (ref_double_round s) = length s"
  by (simp add: ref_double_round_def ref_diagonal_round_def ref_column_round_def length_ref_QR_at)

lemma length_ref_funpow: "length ((ref_double_round ^^ n) s) = length s"
  by (induction n) (simp_all add: length_ref_double_round)

lemma length_ref_block: "length (ref_block s) = length s"
  by (simp add: ref_block_def length_ref_funpow)

lemma length_with_counter: "length (with_counter s c) = length s"
  by (simp add: with_counter_def)

lemma final_blocks_nth:
  assumes "i < tier_blocks t"
  shows "final_blocks t mem state ! i =
     ref_block (with_counter (cipher_state mem state) (cipher_state mem state ! 12 + of_nat i))"
  using assms
  by (simp add: final_blocks_eq rounds_blocks_eq length_working_blocks working_blocks_nth
      ref_block_def del: funpow.simps)

lemma length_final_blocks: "length (final_blocks t mem state) = tier_blocks t"
  by (simp add: final_blocks_eq rounds_blocks_eq length_working_blocks)

subsection \<open>Serialization\<close>

lemma length_concat_uniform:
  "(\<And>i. i < n \<Longrightarrow> length (f i) = m) \<Longrightarrow> length (concat (map f [0..<n])) = n * m"
  by (induction n) simp_all

lemma nth_concat_uniform:
  assumes "\<And>i. i < n \<Longrightarrow> length (f i) = m" "x < n * m"
  shows "concat (map f [0..<n]) ! x = f (x div m) ! (x mod m)"
  using assms
proof (induction n)
  case 0
  then show ?case by simp
next
  case (Suc n)
  have len: "length (concat (map f [0..<n])) = n * m"
    by (rule length_concat_uniform) (simp add: Suc.prems(1))
  show ?case
  proof (cases "x < n * m")
    case True
    with Suc.IH[OF Suc.prems(1) True] len show ?thesis by (simp add: nth_append)
  next
    case False
    define r where "r = x - n * m"
    with False Suc.prems(2) have r: "r < m" and x: "x = r + n * m" by simp_all
    then have "x div m = n" "x mod m = r" by simp_all
    then show ?thesis using len r x by (simp add: nth_append)
  qed
qed

lemma nth_le_bytes: "k < 4 \<Longrightarrow> le_bytes w ! k = byte_of w k"
  using less4_cases[of k] by (auto simp: le_bytes_def)

lemma nth_serialize:
  assumes "x < 4 * length ws"
  shows "concat (map le_bytes ws) ! x = byte_of (ws ! (x div 4)) (x mod 4)"
proof -
  have "map le_bytes ws = map (\<lambda>i. le_bytes (ws ! i)) [0..<length ws]"
    by (rule nth_equalityI) simp_all
  then have "concat (map le_bytes ws) = concat (map (\<lambda>i. le_bytes (ws ! i)) [0..<length ws])"
    by (rule arg_cong)
  also have "\<dots> ! x = le_bytes (ws ! (x div 4)) ! (x mod 4)"
    using assms by (intro nth_concat_uniform) (simp_all add: le_bytes_def mult.commute)
  finally show ?thesis by (simp add: nth_le_bytes)
qed

lemma length_serialize: "length (concat (map le_bytes ws)) = 4 * length ws"
  by (induction ws) (simp_all add: le_bytes_def)

lemma length_ref_keystream_block: "length s = 16 \<Longrightarrow> length (ref_keystream_block s) = 64"
  by (simp add: ref_keystream_block_def length_serialize length_ref_block)

subsection \<open>Evaluating the reference\<close>

lemma md: "n < 32 \<Longrightarrow> m < 32 \<Longrightarrow> (m + 32 - n) mod 32 = (if n \<le> m then m - n else m + 32 - n)" for m n :: nat
  by (auto simp: le_mod_geq)

lemma rotl32:
  assumes "n < 32"
  shows "word_rotl n (w::32 word) = push_bit n w OR drop_bit (32 - n) w"
proof (rule bit_word_eqI)
  fix m assume "m < LENGTH(32)"
  then have m: "m < 32" by simp
  show "bit (word_rotl n w) m = bit (push_bit n w OR drop_bit (32 - n) w) m"
  proof (cases "n \<le> m")
    case True
    then have "(m + (32 - n)) mod 32 = m - n" using m assms md[of n m] by simp
    moreover have "\<not> bit w (32 - n + m)"
    proof
      assume "bit w (32 - n + m)"
      then have "32 - n + m < LENGTH(32)" by (rule bit_imp_le_length)
      with True assms show False by simp
    qed
    ultimately show ?thesis
      using m True assms
      by (simp add: bit_word_rotl_iff bit_or_iff bit_push_bit_iff bit_drop_bit_eq)
  next
    case False
    then have "(m + (32 - n)) mod 32 = 32 - n + m" using m assms by simp
    then show ?thesis
      using m False assms
      by (simp add: bit_word_rotl_iff bit_or_iff bit_push_bit_iff bit_drop_bit_eq)
  qed
qed

lemma ref_QR_expand:
  "ref_QR (a, b, c, d) =
    (a + b + word_rotl 12 (b XOR (c + word_rotl 16 (d XOR (a + b)))),
     word_rotl 7 (word_rotl 12 (b XOR (c + word_rotl 16 (d XOR (a + b)))) XOR
       (c + word_rotl 16 (d XOR (a + b)) +
        word_rotl 8 (word_rotl 16 (d XOR (a + b)) XOR
          (a + b + word_rotl 12 (b XOR (c + word_rotl 16 (d XOR (a + b)))))))),
     c + word_rotl 16 (d XOR (a + b)) +
        word_rotl 8 (word_rotl 16 (d XOR (a + b)) XOR
          (a + b + word_rotl 12 (b XOR (c + word_rotl 16 (d XOR (a + b)))))),
     word_rotl 8 (word_rotl 16 (d XOR (a + b)) XOR
          (a + b + word_rotl 12 (b XOR (c + word_rotl 16 (d XOR (a + b)))))))"
  by (simp add: ref_QR_def Let_def)


lemma ref_column_round_list:
  "ref_column_round [w0, w1, w2, w3, w4, w5, w6, w7, w8, w9, w10, w11, w12, w13, w14, w15] =
    (case ref_QR (w0, w4, w8, w12) of (a0, b0, c0, d0) \<Rightarrow>
     case ref_QR (w1, w5, w9, w13) of (a1, b1, c1, d1) \<Rightarrow>
     case ref_QR (w2, w6, w10, w14) of (a2, b2, c2, d2) \<Rightarrow>
     case ref_QR (w3, w7, w11, w15) of (a3, b3, c3, d3) \<Rightarrow>
       [a0, a1, a2, a3, b0, b1, b2, b3, c0, c1, c2, c3, d0, d1, d2, d3])"
  by (simp add: ref_column_round_def ref_QR_at_def eval_nat_numeral split: prod.split)

lemma funpow10: "(f ^^ 10) x = f (f (f (f (f (f (f (f (f (f x)))))))))"
  by (simp add: eval_nat_numeral)

lemma ref_diagonal_round_list:
  "ref_diagonal_round [w0, w1, w2, w3, w4, w5, w6, w7, w8, w9, w10, w11, w12, w13, w14, w15] =
    (case ref_QR (w0, w5, w10, w15) of (a0, b1, c2, d3) \<Rightarrow>
     case ref_QR (w1, w6, w11, w12) of (a1, b2, c3, d0) \<Rightarrow>
     case ref_QR (w2, w7, w8, w13) of (a2, b3, c0, d1) \<Rightarrow>
     case ref_QR (w3, w4, w9, w14) of (a3, b0, c1, d2) \<Rightarrow>
       [a0, a1, a2, a3, b0, b1, b2, b3, c0, c1, c2, c3, d0, d1, d2, d3])"
  by (simp add: ref_diagonal_round_def ref_QR_at_def eval_nat_numeral split: prod.split)

subsection \<open>Bytes of the key stream\<close>

lemma generate_at_word:
  assumes "i < tier_blocks t" "j < 16" "k < 4"
  shows "fst (generate t state result mem) (result + (64 * i + 4 * j + k)) =
     byte_of (final_blocks t mem state ! i ! j) k"
proof -
  define p s where "p = j div 4" and "s = j mod 4"
  with assms(2) have p: "p < 4" and s: "s < 4" and j: "j = 4 * p + s" by auto
  have "64 * i + 4 * j + k = 64 * i + 16 * p + 4 * s + k" by (simp add: j)
  then show ?thesis
    using generate_at[OF assms(1) p s assms(3), of state result mem] by (simp only: j)
qed

lemma generate_byte:
  assumes "x < tier_blocks t * 64"
  shows "fst (generate t state result mem) (result + x) =
     byte_of (ref_block (with_counter (cipher_state mem state)
        (cipher_state mem state ! 12 + of_nat (x div 64))) ! (x mod 64 div 4)) (x mod 4)"
proof -
  define i j k where "i = x div 64" and "j = x mod 64 div 4" and "k = x mod 4"
  have "x mod 64 mod 4 = x mod 4" by (simp add: mod_mod_cancel)
  then have "x mod 64 = 4 * j + k" unfolding j_def k_def by (metis mult_div_mod_eq)
  then have x: "x = 64 * i + 4 * j + k" unfolding i_def by (metis mult_div_mod_eq add.assoc)
  have i: "i < tier_blocks t" using assms by (simp add: i_def less_mult_imp_div_less)
  have "x mod 64 < 16 * 4" by simp
  then have j: "j < 16" unfolding j_def by (rule less_mult_imp_div_less)
  have k: "k < 4" by (simp add: k_def)
  show ?thesis
    using generate_at_word[OF i j k, of state result mem] final_blocks_nth[OF i, of mem state]
    by (simp add: x[symmetric]) (simp add: i_def j_def k_def)
qed

lemma reference_stream_nth:
  assumes "length st = 16" "x < n * 64"
  shows "reference_stream st n ! x =
     byte_of (ref_block (with_counter st (st ! 12 + of_nat (x div 64))) ! (x mod 64 div 4)) (x mod 4)"
proof -
  let ?f = "\<lambda>i. ref_keystream_block (with_counter st (st ! 12 + of_nat i))"
  have len: "length (?f i) = 64" for i
    by (simp add: length_ref_keystream_block length_with_counter assms(1))
  have "reference_stream st n ! x = ?f (x div 64) ! (x mod 64)"
    unfolding reference_stream_def using len assms(2) by (intro nth_concat_uniform) simp_all
  also have "\<dots> = byte_of (ref_block (with_counter st (st ! 12 + of_nat (x div 64))) !
      (x mod 64 div 4)) (x mod 64 mod 4)"
    unfolding ref_keystream_block_def
    by (rule nth_serialize) (simp add: length_ref_block length_with_counter assms(1))
  also have "x mod 64 mod 4 = x mod 4" by (simp add: mod_mod_cancel)
  finally show ?thesis .
qed

lemma length_reference_stream: "length st = 16 \<Longrightarrow> length (reference_stream st n) = n * 64"
  unfolding reference_stream_def
  by (rule length_concat_uniform) (simp add: length_ref_keystream_block length_with_counter)

lemma keystream_bytes_reference:
  assumes "n \<le> tier_blocks t * 64"
  shows "keystream_bytes n (fst (generate t state result mem)) result =
     take n (reference_stream (cipher_state mem state) (tier_blocks t))"
proof (rule nth_equalityI)
  show "length (keystream_bytes n (fst (generate t state result mem)) result) =
      length (take n (reference_stream (cipher_state mem state) (tier_blocks t)))"
    using assms by (simp add: keystream_bytes_def length_reference_stream length_cipher_state)
next
  fix x assume "x < length (keystream_bytes n (fst (generate t state result mem)) result)"
  then have x: "x < n" by (simp add: keystream_bytes_def)
  with assms have x': "x < tier_blocks t * 64" by simp
  show "keystream_bytes n (fst (generate t state result mem)) result ! x =
      take n (reference_stream (cipher_state mem state) (tier_blocks t)) ! x"
    using x by (simp add: keystream_bytes_def generate_byte[OF x']
        reference_stream_nth[OF length_cipher_state x'])
qed


subsection \<open>Known answers\<close>

lemma cipher_state_rfc_memory: "cipher_state rfc_memory 0 = rfc_state"
  by (simp add: cipher_state_eq movdqu_load_def load32_def rfc_memory_def rfc_state_bytes_def
      rfc_state_def)

lemma cipher_state_wrap_memory: "cipher_state wrap_memory 0 ! 12 = 0xFFFFFFFF"
  by (simp add: cipher_state_eq movdqu_load_def load32_def wrap_memory_def)

lemma cipher_state_dirty_memory: "cipher_state dirty_memory 0 = rfc_state"
  by (simp add: cipher_state_eq movdqu_load_def load32_def dirty_memory_def rfc_memory_def
      rfc_state_bytes_def rfc_state_def)

lemma ref_block_rfc_state: "ref_block rfc_state = rfc_block"
proof -
  have c0: "ref_column_round [
      0x61707865, 0x3320646e, 0x79622d32, 0x6b206574,
      0x03020100, 0x07060504, 0x0b0a0908, 0x0f0e0d0c,
      0x13121110, 0x17161514, 0x1b1a1918, 0x1f1e1d1c,
      0x00000001, 0x09000000, 0x4a000000, 0x00000000] = [
      0xabbaa25c, 0x1efa51ea, 0x7354fbdf, 0x83d2dc69,
      0x3a465196, 0x1c7e64f6, 0xb12fb628, 0xf05b6976,
      0x6b3ca454, 0x08eb14b1, 0xbf8a9ac9, 0xe444df3b,
      0xdec62ed2, 0x8862cc77, 0x6e35b345, 0x52a647f1]"
    by (simp add: ref_column_round_list ref_QR_expand rotl32)
  have d0: "ref_diagonal_round [
      0xabbaa25c, 0x1efa51ea, 0x7354fbdf, 0x83d2dc69,
      0x3a465196, 0x1c7e64f6, 0xb12fb628, 0xf05b6976,
      0x6b3ca454, 0x08eb14b1, 0xbf8a9ac9, 0xe444df3b,
      0xdec62ed2, 0x8862cc77, 0x6e35b345, 0x52a647f1] = [
      0xcd52e917, 0x85ab03b4, 0xb3457395, 0xf96de7dd,
      0xc4b7cd22, 0x5c2e187a, 0xc95eb461, 0x316c801a,
      0x7bf7d740, 0x7eddd644, 0xf1a1bdf5, 0x761246ca,
      0x6b0d58a3, 0x6798471a, 0xd737f167, 0xf173888d]"
    by (simp add: ref_diagonal_round_list ref_QR_expand rotl32)
  have c1: "ref_column_round [
      0xcd52e917, 0x85ab03b4, 0xb3457395, 0xf96de7dd,
      0xc4b7cd22, 0x5c2e187a, 0xc95eb461, 0x316c801a,
      0x7bf7d740, 0x7eddd644, 0xf1a1bdf5, 0x761246ca,
      0x6b0d58a3, 0x6798471a, 0xd737f167, 0xf173888d] = [
      0xe3e1111b, 0xa6291491, 0x5a82b80c, 0x4500fd45,
      0xd65b5b5b, 0xf56af099, 0x4ccc8103, 0xc94d29e2,
      0xe67aec54, 0xf7a52d82, 0xdb470914, 0xdfb40f1d,
      0x7be81c0d, 0x1d92d0fd, 0x13139f8c, 0x7a26ecaa]"
    by (simp add: ref_column_round_list ref_QR_expand rotl32)
  have d1: "ref_diagonal_round [
      0xe3e1111b, 0xa6291491, 0x5a82b80c, 0x4500fd45,
      0xd65b5b5b, 0xf56af099, 0x4ccc8103, 0xc94d29e2,
      0xe67aec54, 0xf7a52d82, 0xdb470914, 0xdfb40f1d,
      0x7be81c0d, 0x1d92d0fd, 0x13139f8c, 0x7a26ecaa] = [
      0xcf1a7584, 0x048927ec, 0x54051fda, 0xc244ff28,
      0x901d2f40, 0x7974b81c, 0x378dcfb4, 0xcd47fd0e,
      0x2dafb216, 0x27c89cd6, 0xcd3c9aa0, 0x79fc89c7,
      0x10aef18d, 0x16218765, 0x68f76705, 0x04d6ee22]"
    by (simp add: ref_diagonal_round_list ref_QR_expand rotl32)
  have c2: "ref_column_round [
      0xcf1a7584, 0x048927ec, 0x54051fda, 0xc244ff28,
      0x901d2f40, 0x7974b81c, 0x378dcfb4, 0xcd47fd0e,
      0x2dafb216, 0x27c89cd6, 0xcd3c9aa0, 0x79fc89c7,
      0x10aef18d, 0x16218765, 0x68f76705, 0x04d6ee22] = [
      0xa22695f2, 0xa908cf6c, 0xe6ae05b2, 0xfe0ff04b,
      0x1ece4458, 0xe82b726f, 0x5a21ab90, 0x87698c64,
      0xf2d36da6, 0xf4dab980, 0x7baf5573, 0xa78c270d,
      0x6fda6bf7, 0x65a4b0ce, 0x25e6d76e, 0x1b7b11ec]"
    by (simp add: ref_column_round_list ref_QR_expand rotl32)
  have d2: "ref_diagonal_round [
      0xa22695f2, 0xa908cf6c, 0xe6ae05b2, 0xfe0ff04b,
      0x1ece4458, 0xe82b726f, 0x5a21ab90, 0x87698c64,
      0xf2d36da6, 0xf4dab980, 0x7baf5573, 0xa78c270d,
      0x6fda6bf7, 0x65a4b0ce, 0x25e6d76e, 0x1b7b11ec] = [
      0x03a14032, 0x66b15927, 0x9d6b6b42, 0xb84c4109,
      0xa7143ae0, 0xa09b33dd, 0xa5daaf88, 0x2fd91a73,
      0xc90c6b18, 0x5a202413, 0xc20e01b6, 0x72cd6b74,
      0xba35d777, 0xb360f1bf, 0x8178315b, 0x2cd11b1a]"
    by (simp add: ref_diagonal_round_list ref_QR_expand rotl32)
  have c3: "ref_column_round [
      0x03a14032, 0x66b15927, 0x9d6b6b42, 0xb84c4109,
      0xa7143ae0, 0xa09b33dd, 0xa5daaf88, 0x2fd91a73,
      0xc90c6b18, 0x5a202413, 0xc20e01b6, 0x72cd6b74,
      0xba35d777, 0xb360f1bf, 0x8178315b, 0x2cd11b1a] = [
      0xfecd0838, 0x160ab468, 0x9a0ddf4e, 0xbac7154a,
      0xcedf6624, 0xb11de6c4, 0xbd7810ef, 0xd22b5643,
      0x1d8a33ea, 0x87dc1ca9, 0x89bd34a5, 0x5505ef62,
      0xa818b852, 0xb100446a, 0x9c1d70b1, 0xa1d1befa]"
    by (simp add: ref_column_round_list ref_QR_expand rotl32)
  have d3: "ref_diagonal_round [
      0xfecd0838, 0x160ab468, 0x9a0ddf4e, 0xbac7154a,
      0xcedf6624, 0xb11de6c4, 0xbd7810ef, 0xd22b5643,
      0x1d8a33ea, 0x87dc1ca9, 0x89bd34a5, 0x5505ef62,
      0xa818b852, 0xb100446a, 0x9c1d70b1, 0xa1d1befa] = [
      0x9a2d3589, 0x0b23fc4e, 0x40af3b6b, 0xceea8144,
      0x0a1bffc6, 0x5e5993f7, 0x9904c2e7, 0x0d334718,
      0xe46c6354, 0xc9503229, 0x04fef5aa, 0xf8933f72,
      0x2687d476, 0x54e65231, 0x3594ffc5, 0x2b3bb2ca]"
    by (simp add: ref_diagonal_round_list ref_QR_expand rotl32)
  have c4: "ref_column_round [
      0x9a2d3589, 0x0b23fc4e, 0x40af3b6b, 0xceea8144,
      0x0a1bffc6, 0x5e5993f7, 0x9904c2e7, 0x0d334718,
      0xe46c6354, 0xc9503229, 0x04fef5aa, 0xf8933f72,
      0x2687d476, 0x54e65231, 0x3594ffc5, 0x2b3bb2ca] = [
      0x85e7824a, 0x4940cd9e, 0xfbe7684b, 0x7335d03d,
      0x1c133ea1, 0xbba40b0f, 0x9413992a, 0xa4ab2040,
      0xa3a66a86, 0xc0b4754f, 0x771b4ecb, 0x165151a1,
      0xde008464, 0x34f0058b, 0x70846cfa, 0xa3271b09]"
    by (simp add: ref_column_round_list ref_QR_expand rotl32)
  have d4: "ref_diagonal_round [
      0x85e7824a, 0x4940cd9e, 0xfbe7684b, 0x7335d03d,
      0x1c133ea1, 0xbba40b0f, 0x9413992a, 0xa4ab2040,
      0xa3a66a86, 0xc0b4754f, 0x771b4ecb, 0x165151a1,
      0xde008464, 0x34f0058b, 0x70846cfa, 0xa3271b09] = [
      0xc53318c5, 0xca325d96, 0x7e7d11cb, 0x3404e2ca,
      0x26d7cf73, 0x6088d379, 0xc0f0e9bd, 0xe310cdb9,
      0xae2ca8db, 0x42f67c72, 0x71669aca, 0x975c171d,
      0x9e5ec228, 0x7d85a9f3, 0x201d0756, 0x63fa6953]"
    by (simp add: ref_diagonal_round_list ref_QR_expand rotl32)
  have c5: "ref_column_round [
      0xc53318c5, 0xca325d96, 0x7e7d11cb, 0x3404e2ca,
      0x26d7cf73, 0x6088d379, 0xc0f0e9bd, 0xe310cdb9,
      0xae2ca8db, 0x42f67c72, 0x71669aca, 0x975c171d,
      0x9e5ec228, 0x7d85a9f3, 0x201d0756, 0x63fa6953] = [
      0x9950b826, 0xcac7ccc6, 0x84a67673, 0xdb3109a6,
      0x2121065a, 0xc12bdadb, 0xcae3acd1, 0x594616cb,
      0x19078de2, 0x178ecc02, 0xe6adbdb2, 0x52a9d50e,
      0x40ca72b3, 0x3b9bf852, 0x78690378, 0xe17d4902]"
    by (simp add: ref_column_round_list ref_QR_expand rotl32)
  have d5: "ref_diagonal_round [
      0x9950b826, 0xcac7ccc6, 0x84a67673, 0xdb3109a6,
      0x2121065a, 0xc12bdadb, 0xcae3acd1, 0x594616cb,
      0x19078de2, 0x178ecc02, 0xe6adbdb2, 0x52a9d50e,
      0x40ca72b3, 0x3b9bf852, 0x78690378, 0xe17d4902] = [
      0x04a3131a, 0x66176309, 0x0415bab1, 0x61b880a2,
      0x36cc86c7, 0xbf8a4465, 0xf77dd720, 0xfc0bdc90,
      0x07d13aca, 0xeb0be9af, 0x61599491, 0x918512dc,
      0x33b6686d, 0x795cc671, 0xc0049972, 0xa0a81bde]"
    by (simp add: ref_diagonal_round_list ref_QR_expand rotl32)
  have c6: "ref_column_round [
      0x04a3131a, 0x66176309, 0x0415bab1, 0x61b880a2,
      0x36cc86c7, 0xbf8a4465, 0xf77dd720, 0xfc0bdc90,
      0x07d13aca, 0xeb0be9af, 0x61599491, 0x918512dc,
      0x33b6686d, 0x795cc671, 0xc0049972, 0xa0a81bde] = [
      0x57c5e6da, 0x35ce46a8, 0x0c041bb9, 0xfa91df79,
      0x8e85d82f, 0xb4819d06, 0xb63be200, 0xacd221e4,
      0x434b4749, 0x1d459c00, 0x111cfe2c, 0x55942604,
      0x49ee03a6, 0xd11a5554, 0xa7202e04, 0x7d2215bc]"
    by (simp add: ref_column_round_list ref_QR_expand rotl32)
  have d6: "ref_diagonal_round [
      0x57c5e6da, 0x35ce46a8, 0x0c041bb9, 0xfa91df79,
      0x8e85d82f, 0xb4819d06, 0xb63be200, 0xacd221e4,
      0x434b4749, 0x1d459c00, 0x111cfe2c, 0x55942604,
      0x49ee03a6, 0xd11a5554, 0xa7202e04, 0x7d2215bc] = [
      0x9b70f51f, 0x7ea8ac11, 0x21e54da9, 0xca393b2f,
      0x93b08686, 0x6a4c50ae, 0x19212a5a, 0x9b032958,
      0xd839165e, 0x4c06e28a, 0xd3fde99e, 0x26acc13d,
      0xa609f555, 0x2c246549, 0x95151853, 0x2c847a0d]"
    by (simp add: ref_diagonal_round_list ref_QR_expand rotl32)
  have c7: "ref_column_round [
      0x9b70f51f, 0x7ea8ac11, 0x21e54da9, 0xca393b2f,
      0x93b08686, 0x6a4c50ae, 0x19212a5a, 0x9b032958,
      0xd839165e, 0x4c06e28a, 0xd3fde99e, 0x26acc13d,
      0xa609f555, 0x2c246549, 0x95151853, 0x2c847a0d] = [
      0xc0b18aee, 0x087445ba, 0x36e52ad9, 0xa777426a,
      0xdeb54e9c, 0x802c883b, 0x06e86889, 0x3c002680,
      0xa82d65d4, 0x687f11eb, 0xe9d36207, 0x4242ddae,
      0x4103c64e, 0x82816a91, 0xb584ca56, 0xfd0bd2b9]"
    by (simp add: ref_column_round_list ref_QR_expand rotl32)
  have d7: "ref_diagonal_round [
      0xc0b18aee, 0x087445ba, 0x36e52ad9, 0xa777426a,
      0xdeb54e9c, 0x802c883b, 0x06e86889, 0x3c002680,
      0xa82d65d4, 0x687f11eb, 0xe9d36207, 0x4242ddae,
      0x4103c64e, 0x82816a91, 0xb584ca56, 0xfd0bd2b9] = [
      0xca5c85dd, 0x93a4f90e, 0xd9f0df58, 0x26dd82dd,
      0x982563f8, 0x712aa9ff, 0x279a61e8, 0x970f72bd,
      0x1c25931a, 0x5180bb10, 0x779c27e7, 0x54077e08,
      0xa9b751fb, 0x382f3ce2, 0x8db1757d, 0xcc38080b]"
    by (simp add: ref_diagonal_round_list ref_QR_expand rotl32)
  have c8: "ref_column_round [
      0xca5c85dd, 0x93a4f90e, 0xd9f0df58, 0x26dd82dd,
      0x982563f8, 0x712aa9ff, 0x279a61e8, 0x970f72bd,
      0x1c25931a, 0x5180bb10, 0x779c27e7, 0x54077e08,
      0xa9b751fb, 0x382f3ce2, 0x8db1757d, 0xcc38080b] = [
      0x765c6e9c, 0x5ab09b11, 0x3ee7da04, 0x37c31203,
      0x9046ecaa, 0x7b88d882, 0xb9b577dd, 0x156de7ed,
      0x46fa091e, 0x5117e9b5, 0x862ff22b, 0xa3fcc7a6,
      0x72a5aace, 0x5fa7f1c5, 0xda563e0a, 0x5263d7ca]"
    by (simp add: ref_column_round_list ref_QR_expand rotl32)
  have d8: "ref_diagonal_round [
      0x765c6e9c, 0x5ab09b11, 0x3ee7da04, 0x37c31203,
      0x9046ecaa, 0x7b88d882, 0xb9b577dd, 0x156de7ed,
      0x46fa091e, 0x5117e9b5, 0x862ff22b, 0xa3fcc7a6,
      0x72a5aace, 0x5fa7f1c5, 0xda563e0a, 0x5263d7ca] = [
      0xb6b87de6, 0x9a016148, 0x93859815, 0x4915e6cc,
      0xdc33c122, 0x98e18fa3, 0x5ffbe8fc, 0xf7154b8b,
      0x28c1fcb3, 0xc4b38f9d, 0x83e2f5d7, 0x7d24b98b,
      0x21078b22, 0xb193e7a3, 0xb2f49389, 0x6cde6026]"
    by (simp add: ref_diagonal_round_list ref_QR_expand rotl32)
  have c9: "ref_column_round [
      0xb6b87de6, 0x9a016148, 0x93859815, 0x4915e6cc,
      0xdc33c122, 0x98e18fa3, 0x5ffbe8fc, 0xf7154b8b,
      0x28c1fcb3, 0xc4b38f9d, 0x83e2f5d7, 0x7d24b98b,
      0x21078b22, 0xb193e7a3, 0xb2f49389, 0x6cde6026] = [
      0x8a07ff15, 0x0cadc51c, 0x017c8da9, 0x4afbe5df,
      0x913768fe, 0x442a0c0c, 0x598fe3bb, 0x47d18828,
      0x0a39aedc, 0xc1428029, 0x7b48135f, 0x5a5f1098,
      0x2d4cfe3e, 0xe5466d1b, 0xe4ccdc13, 0x8ac92a18]"
    by (simp add: ref_column_round_list ref_QR_expand rotl32)
  have d9: "ref_diagonal_round [
      0x8a07ff15, 0x0cadc51c, 0x017c8da9, 0x4afbe5df,
      0x913768fe, 0x442a0c0c, 0x598fe3bb, 0x47d18828,
      0x0a39aedc, 0xc1428029, 0x7b48135f, 0x5a5f1098,
      0x2d4cfe3e, 0xe5466d1b, 0xe4ccdc13, 0x8ac92a18] = [
      0x837778ab, 0xe238d763, 0xa67ae21e, 0x5950bb2f,
      0xc4f2d0c7, 0xfc62bb2f, 0x8fa018fc, 0x3f5ec7b7,
      0x335271c2, 0xf29489f3, 0xeabda8fc, 0x82e46ebd,
      0xd19c12b4, 0xb04e16de, 0x9e83d0cb, 0x4e3c50a2]"
    by (simp add: ref_diagonal_round_list ref_QR_expand rotl32)
  have "(ref_double_round ^^ 10) rfc_state = [
      0x837778ab, 0xe238d763, 0xa67ae21e, 0x5950bb2f,
      0xc4f2d0c7, 0xfc62bb2f, 0x8fa018fc, 0x3f5ec7b7,
      0x335271c2, 0xf29489f3, 0xeabda8fc, 0x82e46ebd,
      0xd19c12b4, 0xb04e16de, 0x9e83d0cb, 0x4e3c50a2]"
    unfolding funpow10 ref_double_round_def rfc_state_def
    by (simp only: c0 d0 c1 d1 c2 d2 c3 d3 c4 d4 c5 d5 c6 d6 c7 d7 c8 d8 c9 d9)
  then show ?thesis
    by (simp add: ref_block_def rfc_state_def rfc_block_def)
qed

lemma cipher_state_frame:
  assumes "\<And>x. state \<le> x \<Longrightarrow> x < state + 64 \<Longrightarrow> mem' x = mem x"
  shows "cipher_state mem' state = cipher_state mem state"
  by (simp add: cipher_state_eq movdqu_load_def load32_def assms)

subsection \<open>Stores under memory protection\<close>

lemma writable16_iff: "writable16 wr a \<longleftrightarrow> (\<forall>x. a \<le> x \<and> x < a + 16 \<longrightarrow> wr x)"
  by (auto simp: writable16_def list_all_iff)

lemma store128_prot_simps:
  "store128_prot wr None a v = None"
  "store128_prot wr (Some mem) a v = (if writable16 wr a then Some (store128 mem a v) else None)"
  by (simp_all add: store128_prot_def)

lemma avx_write_prot_ok:
  assumes "\<forall>x. result \<le> x \<and> x < result + (if vl = AVX_128bit then 128 else 256) \<longrightarrow> wr x"
  shows "avx_write_keystream_prot vl wr result w (Some mem) =
     Some (avx_write_keystream vl result w mem)"
proof -
  obtain a1 b1 c1 d1 a2 b2 c2 d2 where w: "w = ((a1, b1, c1, d1), (a2, b2, c2, d2))"
    by (cases w) auto
  show ?thesis
  proof (cases "vl = AVX_128bit")
    case True
    with assms have wr: "writable16 wr (result + c)" if "c + 16 \<le> 128" for c
      using that by (auto simp: writable16_iff)
    from wr[of 0] have wr0: "writable16 wr result" by simp
    show ?thesis
      by (simp add: True w wr0 avx_write_keystream_prot_def avx_write_keystream_def Let_def
          movdqu_store_prot_def movdqu_store_def store128_prot_simps wr)
  next
    case False
    with assms have wr: "writable16 wr (result + c)" if "c + 16 \<le> 256" for c
      using that by (auto simp: writable16_iff)
    from wr[of 0] have wr0: "writable16 wr result" by simp
    show ?thesis
      by (simp add: False w wr0 avx_write_keystream_prot_def avx_write_keystream_def Let_def
          vextracti128_prot_def vextracti128_def store128_prot_simps wr)
  qed
qed

lemma row_of_offset:
  fixes result x n :: nat
  assumes "result \<le> x" "x < result + 16 * n"
  obtains q where "q < n" "result + 16 * q \<le> x" "x < result + 16 * q + 16"
proof
  let ?q = "(x - result) div 16"
  show "?q < n" using assms by (simp add: less_mult_imp_div_less mult.commute)
  have "16 * ?q \<le> x - result" "x - result < 16 * ?q + 16"
    by presburger+
  then show "result + 16 * ?q \<le> x" "x < result + 16 * ?q + 16" using assms by simp_all
qed

lemma not_writable16:
  "\<not> wr x \<Longrightarrow> a \<le> x \<Longrightarrow> x < a + 16 \<Longrightarrow> \<not> writable16 wr a"
  by (auto simp: writable16_iff)


lemma avx128_write_prot_fault:
  assumes "result \<le> x" "x < result + 128" "\<not> wr x"
  shows "avx_write_keystream_prot AVX_128bit wr result w (Some mem) = None"
proof -
  obtain a1 b1 c1 d1 a2 b2 c2 d2 where w: "w = ((a1, b1, c1, d1), (a2, b2, c2, d2))"
    by (cases w) auto
  from assms(1,2) obtain q where q: "q < 8" "result + 16 * q \<le> x" "x < result + 16 * q + 16"
    using row_of_offset[of result x 8] by auto
  then have nw: "\<not> writable16 wr (result + 16 * q)" using assms(3) by (rule_tac not_writable16)
  from q(1) have "q = 0 \<or> q = 1 \<or> q = 2 \<or> q = 3 \<or> q = 4 \<or> q = 5 \<or> q = 6 \<or> q = 7" by arith
  then show ?thesis
    using nw
    by (elim disjE)
       (simp_all add: w avx_write_keystream_prot_def Let_def movdqu_store_prot_def
          store128_prot_simps)
qed


lemma less16_split:
  assumes "(q::nat) < 16"
  obtains g l where "q = 4 * g + l" "g < 4" "l < 4"
proof
  show "q = 4 * (q div 4) + q mod 4" by simp
  show "q div 4 < 4" using assms by simp
  show "q mod 4 < 4" by simp
qed

lemma avx256_write_prot_fault:
  assumes "result \<le> x" "x < result + 256" "\<not> wr x"
  shows "avx_write_keystream_prot AVX_256bit wr result w (Some mem) = None"
proof -
  obtain a1 b1 c1 d1 a2 b2 c2 d2 where w: "w = ((a1, b1, c1, d1), (a2, b2, c2, d2))"
    by (cases w) auto
  from assms(1,2) obtain q where q: "q < 16" "result + 16 * q \<le> x" "x < result + 16 * q + 16"
    using row_of_offset[of result x 16] by auto
  then have nw: "\<not> writable16 wr (result + 16 * q)" using assms(3) by (rule_tac not_writable16)
  from q(1) obtain g l where gl: "q = 4 * g + l" "g < 4" "l < 4" by (rule less16_split)
  then have "g = 0 \<or> g = 1 \<or> g = 2 \<or> g = 3" "l = 0 \<or> l = 1 \<or> l = 2 \<or> l = 3" by arith+
  then show ?thesis
    using nw
    by (elim disjE)
       (simp_all add: gl(1) w avx_write_keystream_prot_def Let_def vextracti128_prot_def
          store128_prot_simps)
qed

lemma collate_prot_None [simp]:
  "cc20_keystream_collate_avx512_prot wr r baseAddr baseOffset None = None"
  by (cases r)
     (simp add: cc20_keystream_collate_avx512_prot_def Let_def vextracti32x4_prot_def
        store128_prot_simps)

lemma collate_prot_ok:
  assumes "\<forall>x. baseAddr + baseOffset \<le> x \<and> x < baseAddr + baseOffset + 256 \<longrightarrow> wr x"
  shows "cc20_keystream_collate_avx512_prot wr r baseAddr baseOffset (Some mem) =
     Some (cc20_keystream_collate_avx512 r baseAddr baseOffset mem)"
proof -
  obtain a b c d where r: "r = (a, b, c, d)" by (cases r) auto
  from assms have wr: "writable16 wr (baseAddr + baseOffset + e)" if "e + 16 \<le> 256" for e
    using that by (auto simp: writable16_iff)
  from wr[of 0] have wr0: "writable16 wr (baseAddr + baseOffset)" by simp
  show ?thesis
    by (simp add: r wr0 cc20_keystream_collate_avx512_prot_def cc20_keystream_collate_avx512_def
        Let_def vextracti32x4_prot_def vextracti32x4_def store128_prot_simps wr)
qed

lemma collate_prot_fault:
  assumes "baseAddr + baseOffset \<le> x" "x < baseAddr + baseOffset + 256" "\<not> wr x"
  shows "cc20_keystream_collate_avx512_prot wr r baseAddr baseOffset m = None"
proof (cases m)
  case None
  then show ?thesis by simp
next
  case (Some mem)
  obtain a b c d where r: "r = (a, b, c, d)" by (cases r) auto
  from assms(1,2) obtain q where q: "q < 16" "baseAddr + baseOffset + 16 * q \<le> x"
    "x < baseAddr + baseOffset + 16 * q + 16"
    using row_of_offset[of "baseAddr + baseOffset" x 16] by auto
  then have nw: "\<not> writable16 wr (baseAddr + baseOffset + 16 * q)"
    using assms(3) by (rule_tac not_writable16)
  from q(1) obtain g l where gl: "q = 4 * g + l" "g < 4" "l < 4" by (rule less16_split)
  then have "g = 0 \<or> g = 1 \<or> g = 2 \<or> g = 3" "l = 0 \<or> l = 1 \<or> l = 2 \<or> l = 3" by arith+
  then show ?thesis
    using nw
    by (elim disjE)
       (simp_all add: gl(1) Some r cc20_keystream_collate_avx512_prot_def Let_def
          vextracti32x4_prot_def store128_prot_simps)
qed

lemma avx512_write_prot_ok:
  assumes "\<forall>x. result \<le> x \<and> x < result + 1024 \<longrightarrow> wr x"
  shows "avx512_write_keystream_prot wr result w (Some mem) =
     Some (avx512_write_keystream result w mem)"
proof -
  obtain w1 w2 w3 w4 where w: "w = (w1, w2, w3, w4)" by (cases w) auto
  have ok: "cc20_keystream_collate_avx512_prot wr r result e (Some m) =
      Some (cc20_keystream_collate_avx512 r result e m)" if "e + 256 \<le> 1024" for r e m
    using assms that by (intro collate_prot_ok) auto
  show ?thesis
    by (cases w1; cases w2; cases w3; cases w4)
       (simp add: w avx512_write_keystream_prot_def avx512_write_keystream_def Let_def ok)
qed

lemma avx512_write_prot_fault:
  assumes "result \<le> x" "x < result + 1024" "\<not> wr x"
  shows "avx512_write_keystream_prot wr result w (Some mem) = None"
proof -
  obtain w1 w2 w3 w4 where w: "w = (w1, w2, w3, w4)" by (cases w) auto
  have "x < result + 256 \<or> (result + 256 \<le> x \<and> x < result + 512) \<or>
      (result + 512 \<le> x \<and> x < result + 768) \<or> result + 768 \<le> x" by arith
  then show ?thesis
  proof (elim disjE conjE)
    assume "x < result + 256"
    with assms have "cc20_keystream_collate_avx512_prot wr r result 0 m = None" for r m
      by (intro collate_prot_fault[where x = x]) simp_all
    then show ?thesis
      by (cases w1; cases w2; cases w3; cases w4)
         (simp add: w avx512_write_keystream_prot_def Let_def)
  next
    assume "result + 256 \<le> x" "x < result + 512"
    with assms have "cc20_keystream_collate_avx512_prot wr r result 256 m = None" for r m
      by (intro collate_prot_fault[where x = x]) simp_all
    then show ?thesis
      by (cases w1; cases w2; cases w3; cases w4)
         (simp add: w avx512_write_keystream_prot_def Let_def)
  next
    assume "result + 512 \<le> x" "x < result + 768"
    with assms have "cc20_keystream_collate_avx512_prot wr r result 512 m = None" for r m
      by (intro collate_prot_fault[where x = x]) simp_all
    then show ?thesis
      by (cases w1; cases w2; cases w3; cases w4)
         (simp add: w avx512_write_keystream_prot_def Let_def)
  next
    assume "result + 768 \<le> x"
    with assms have "cc20_keystream_collate_avx512_prot wr r result 768 m = None" for r m
      by (intro collate_prot_fault[where x = x]) simp_all
    then show ?thesis
      by (cases w1; cases w2; cases w3; cases w4)
         (simp add: w avx512_write_keystream_prot_def Let_def)
  qed
qed

lemma generate_prot_ok:
  assumes "\<forall>x. result \<le> x \<and> x < result + tier_blocks t * 64 \<longrightarrow> wr x"
  shows "generate_prot t wr state result mem =
     Some (fst (generate t state result mem), tier_blocks t * 64)"
  using assms
  by (cases t)
     (simp_all add: generate_prot_def generate_def generate_chacha_stubs_def
        generate_chacha20Block_avx_prot_def generate_chacha20Block_avx_def
        generate_chacha20Block_avx512_prot_def generate_chacha20Block_avx512_def
        Let_def split_def avx_write_prot_ok avx512_write_prot_ok)

lemma generate_prot_fault:
  assumes "result \<le> x" "x < result + tier_blocks t * 64" "\<not> wr x"
  shows "generate_prot t wr state result mem = None"
  using assms
  by (cases t)
     (simp_all add: generate_prot_def generate_chacha20Block_avx_prot_def
        generate_chacha20Block_avx512_prot_def Let_def split_def
        avx128_write_prot_fault[where x = x] avx256_write_prot_fault[where x = x]
        avx512_write_prot_fault[where x = x])

section \<open>The key stream generator: claims\<close>

text \<open>
  Claim C1 (reference equivalence). For every cipher state in memory and every tier with
  block count \<open>N\<close>, the \<open>N * 64\<close> bytes that \<open>generate\<close> leaves at \<open>result\<close> are the
  concatenation of the scalar reference blocks for the counters \<open>c, c + 1, .., c + N - 1\<close>
  (\<open>c\<close> the counter word of the state, the addition modulo \<open>2^32\<close>), and the stub returns
  \<open>N * 64\<close>.
\<close>

theorem generate_reference_equivalence:
  "keystream_bytes (tier_blocks t * 64) (fst (generate t state result mem)) result =
     concat (map (\<lambda>i. ref_keystream_block
        (with_counter (cipher_state mem state) (cipher_state mem state ! 12 + of_nat i)))
        [0..<tier_blocks t]) \<and>
   snd (generate t state result mem) = tier_blocks t * 64"
  using keystream_bytes_reference[of "tier_blocks t * 64" t state result mem]
  by (simp add: generate_snd reference_stream_def
      length_reference_stream[unfolded reference_stream_def] length_cipher_state)

text \<open>
  Claim C2 (state replicator). For every tier with block count \<open>N\<close> and every \<open>i < N\<close>, the
  working block \<open>i\<close> that enters the loop is the cipher state with word 12, the counter,
  increased by \<open>i\<close> modulo \<open>2^32\<close>; there are \<open>N\<close> working blocks and any two of them agree
  in every word other than word 12.
\<close>

theorem state_replicator_counter_law:
  assumes "i < tier_blocks t"
  shows "length (working_blocks t mem state) = tier_blocks t \<and>
     working_blocks t mem state ! i =
       (cipher_state mem state)[12 := cipher_state mem state ! 12 + of_nat i] \<and>
     (\<forall>i' < tier_blocks t. \<forall>j < 16. j \<noteq> 12 \<longrightarrow>
        working_blocks t mem state ! i ! j = working_blocks t mem state ! i' ! j)"
  using assms
  by (simp add: length_working_blocks working_blocks_nth with_counter_def)

theorem state_replicator_counter_law_witness:
  "(3::nat) < tier_blocks Medium \<and>
   working_blocks Medium rfc_memory 0 ! 3 = rfc_state[12 := 4] \<and>
   working_blocks Medium rfc_memory 0 ! 3 ! 13 = working_blocks Medium rfc_memory 0 ! 0 ! 13"
proof -
  have h: "(3::nat) < tier_blocks Medium" by simp
  note th = state_replicator_counter_law[OF h, of rfc_memory 0]
  from th have a: "working_blocks Medium rfc_memory 0 ! 3 = rfc_state[12 := 4]"
    by (simp add: cipher_state_rfc_memory) (simp add: rfc_state_def list16_update12)
  from th have "\<forall>i' < tier_blocks Medium. \<forall>j < 16. j \<noteq> 12 \<longrightarrow>
      working_blocks Medium rfc_memory 0 ! 3 ! j = working_blocks Medium rfc_memory 0 ! i' ! j"
    by (elim conjE)
  from this[rule_format, of 0 13]
  have "working_blocks Medium rfc_memory 0 ! 3 ! 13 = working_blocks Medium rfc_memory 0 ! 0 ! 13"
    by simp
  with h a show ?thesis by simp
qed



text \<open>
  Claim C4 (feed-forward). For every block \<open>i < N\<close> and word \<open>j < 16\<close>, the word written is
  the word after the ten double rounds plus, modulo \<open>2^32\<close>, word \<open>j\<close> of the same block's
  working state before the rounds; the counter word of that working state is the state's
  counter plus \<open>i\<close>, not the state's counter.
\<close>

theorem feed_forward_per_block:
  assumes "i < tier_blocks t" "j < 16"
  shows "final_blocks t mem state ! i ! j =
       rounds_blocks t mem state ! i ! j + working_blocks t mem state ! i ! j \<and>
     working_blocks t mem state ! i ! 12 = cipher_state mem state ! 12 + of_nat i \<and>
     rounds_blocks t mem state ! i = (ref_double_round ^^ 10) (working_blocks t mem state ! i)"
proof -
  have w: "working_blocks t mem state ! i =
      with_counter (cipher_state mem state) (cipher_state mem state ! 12 + of_nat i)"
    using assms(1) by (rule working_blocks_nth)
  then have len: "length (working_blocks t mem state ! i) = 16"
    by (simp add: length_with_counter length_cipher_state)
  have r: "rounds_blocks t mem state ! i = (ref_double_round ^^ 10) (working_blocks t mem state ! i)"
    using assms(1) by (simp add: rounds_blocks_eq length_working_blocks del: funpow.simps)
  have "final_blocks t mem state ! i =
      map2 (+) (rounds_blocks t mem state ! i) (working_blocks t mem state ! i)"
    using assms(1) by (simp add: final_blocks_eq rounds_blocks_eq length_working_blocks
        del: funpow.simps)
  then have "final_blocks t mem state ! i ! j =
      rounds_blocks t mem state ! i ! j + working_blocks t mem state ! i ! j"
    using assms(2) len by (simp add: r length_ref_funpow del: funpow.simps)
  moreover have "working_blocks t mem state ! i ! 12 = cipher_state mem state ! 12 + of_nat i"
    by (simp add: w with_counter_def length_cipher_state)
  ultimately show ?thesis using r by simp
qed

theorem feed_forward_per_block_witness:
  "(1::nat) < tier_blocks Narrow \<and> (12::nat) < 16 \<and>
   final_blocks Narrow rfc_memory 0 ! 1 ! 12 = rounds_blocks Narrow rfc_memory 0 ! 1 ! 12 + 2 \<and>
   working_blocks Narrow rfc_memory 0 ! 1 ! 12 = 2"
  using feed_forward_per_block[of 1 Narrow 12 rfc_memory 0]
  by (simp add: cipher_state_rfc_memory) (simp add: rfc_state_def list16_update12)

text \<open>
  Claim C5 (serialization). For every tier, block \<open>i < N\<close>, word \<open>j < 16\<close> and byte \<open>k < 4\<close>,
  the byte at offset \<open>i * 64 + j * 4 + k\<close> of the output is byte \<open>k\<close>, least significant
  first, of word \<open>j\<close> of the finished block \<open>i\<close>, whichever register and lane held it.
\<close>

theorem serialization_layout:
  assumes "i < tier_blocks t" "j < 16" "k < 4"
  shows "fst (generate t state result mem) (result + i * 64 + j * 4 + k) =
     byte_of (final_blocks t mem state ! i ! j) k"
  using generate_at_word[OF assms, of state result mem] by (simp add: add.assoc mult.commute)

theorem serialization_layout_witness:
  "(3::nat) < tier_blocks Medium \<and> (5::nat) < 16 \<and> (2::nat) < 4 \<and>
   fst (generate Medium 0 64 rfc_memory) 278 = byte_of (final_blocks Medium rfc_memory 0 ! 3 ! 5) 2"
  using serialization_layout[of 3 Medium 5 2 0 64 rfc_memory] by simp


text \<open>
  Claim C7 (counter wrap-around). For a cipher state whose counter word is \<open>0xFFFFFFFF\<close>,
  under every tier (each has at least two blocks) the stub returns normally: the counter
  word of the second working block is 0, and the second 64 bytes of the output are the
  scalar reference block for counter 0 with the same key and nonce.
\<close>

theorem counter_wraparound:
  assumes "cipher_state mem state ! 12 = 0xFFFFFFFF"
  shows "working_blocks t mem state ! 1 ! 12 = 0 \<and>
     keystream_bytes 64 (fst (generate t state result mem)) (result + 64) =
       ref_keystream_block (with_counter (cipher_state mem state) 0) \<and>
     snd (generate t state result mem) = tier_blocks t * 64"
proof -
  have one: "1 < tier_blocks t" by (cases t) simp_all
  have w: "working_blocks t mem state ! 1 ! 12 = 0"
    using working_blocks_nth[OF one, of mem state] assms
    by (simp add: with_counter_def length_cipher_state)
  have "keystream_bytes 64 (fst (generate t state result mem)) (result + 64) =
      ref_keystream_block (with_counter (cipher_state mem state) 0)"
  proof (rule nth_equalityI)
    show "length (keystream_bytes 64 (fst (generate t state result mem)) (result + 64)) =
        length (ref_keystream_block (with_counter (cipher_state mem state) 0))"
      by (simp add: keystream_bytes_def length_ref_keystream_block length_with_counter
          length_cipher_state)
  next
    fix y assume "y < length (keystream_bytes 64 (fst (generate t state result mem)) (result + 64))"
    then have y: "y < 64" by (simp add: keystream_bytes_def)
    with one have x: "64 + y < tier_blocks t * 64" by simp
    have d: "(64 + y) div 64 = 1" using y by simp
    have c: "cipher_state mem state ! 12 + of_nat ((64 + y) div 64) = 0"
      unfolding d assms by simp
    have m: "(64 + y) mod 64 div 4 = y div 4" "(64 + y) mod 4 = y mod 4"
      using y by simp_all presburger
    have "fst (generate t state result mem) (result + 64 + y) =
        byte_of (ref_block (with_counter (cipher_state mem state) 0) ! (y div 4)) (y mod 4)"
      using generate_byte[OF x, of state result mem] unfolding c m by (simp only: add.assoc)
    moreover have "ref_keystream_block (with_counter (cipher_state mem state) 0) ! y =
        byte_of (ref_block (with_counter (cipher_state mem state) 0) ! (y div 4)) (y mod 4)"
      unfolding ref_keystream_block_def using y
      by (intro nth_serialize) (simp add: length_ref_block length_with_counter length_cipher_state)
    ultimately show "keystream_bytes 64 (fst (generate t state result mem)) (result + 64) ! y =
        ref_keystream_block (with_counter (cipher_state mem state) 0) ! y"
      using y by (simp add: keystream_bytes_def)
  qed
  with w show ?thesis by (simp add: generate_snd)
qed

theorem counter_wraparound_witness:
  "cipher_state wrap_memory 0 ! 12 = 0xFFFFFFFF \<and>
   working_blocks Wide wrap_memory 0 ! 1 ! 12 = 0 \<and>
   snd (generate Wide 0 64 wrap_memory) = 1024"
  using counter_wraparound[of wrap_memory 0 Wide 64] by (simp add: cipher_state_wrap_memory)

text \<open>
  Claim C8 (undersized buffer), as stated: a call whose output buffer has a capacity below
  \<open>N * 64\<close> fails fast and never reports success. The stubs receive the two pointers only;
  no capacity reaches them. With the RFC state at address 0 and a buffer of capacity 16 at
  address 64 inside 256 bytes of writable memory, the two-block stub is not stopped: it
  returns 128, and it has replaced the zero byte at offset 16, the first byte past the
  buffer, by the key stream byte \<open>0xc7\<close>.
\<close>

theorem undersized_buffer_reports_success:
  "small_buffer_capacity < tier_blocks Narrow * 64 \<and>
   generate_prot Narrow heap_writable 0 64 rfc_memory =
     Some (fst (generate Narrow 0 64 rfc_memory), 128) \<and>
   rfc_memory (64 + small_buffer_capacity) = 0 \<and>
   fst (generate Narrow 0 64 rfc_memory) (64 + small_buffer_capacity) = 0xc7"
proof -
  have x: "16 < tier_blocks Narrow * 64" by simp
  have "with_counter rfc_state (rfc_state ! 12 + 0) = rfc_state"
    by (rule with_counter_same) (simp add: rfc_state_def)
  then have "fst (generate Narrow 0 64 rfc_memory) (64 + 16) = byte_of (rfc_block ! 4) 0"
    using generate_byte[OF x, of 0 64 rfc_memory]
    by (simp add: cipher_state_rfc_memory ref_block_rfc_state)
  also have "\<dots> = 0xc7" by (simp add: rfc_block_def byte_of_def)
  finally have b: "fst (generate Narrow 0 64 rfc_memory) (64 + small_buffer_capacity) = 0xc7"
    by (simp add: small_buffer_capacity_def)
  have "generate_prot Narrow heap_writable 0 64 rfc_memory =
      Some (fst (generate Narrow 0 64 rfc_memory), tier_blocks Narrow * 64)"
    by (rule generate_prot_ok) (simp add: heap_writable_def)
  with b show ?thesis by (simp add: small_buffer_capacity_def rfc_memory_def)
qed

text \<open>
  Claim C8, amended: \<open>generate\<close> makes no capacity check. For every call whose output
  buffer (writable) has a capacity \<open>cap\<close> below \<open>N * 64\<close>: if the memory behind the buffer,
  the offsets from \<open>cap\<close> up to \<open>N * 64\<close>, is writable, the call is not stopped; it overruns
  the buffer, leaves key stream at offset \<open>cap\<close> behind it, and returns \<open>N * 64\<close>. If some
  of that memory is not writable, the call is stopped by the fault of a store and does
  not return. It never returns after writing fewer than \<open>N * 64\<close> bytes.
\<close>

theorem undersized_buffer_overrun_or_fault:
  assumes "cap < tier_blocks t * 64"
    and "\<forall>x. result \<le> x \<and> x < result + cap \<longrightarrow> wr x"
  shows "if (\<forall>x. result + cap \<le> x \<and> x < result + tier_blocks t * 64 \<longrightarrow> wr x)
     then generate_prot t wr state result mem =
            Some (fst (generate t state result mem), tier_blocks t * 64) \<and>
          fst (generate t state result mem) (result + cap) =
            reference_stream (cipher_state mem state) (tier_blocks t) ! cap
     else generate_prot t wr state result mem = None"
proof (cases "\<forall>x. result + cap \<le> x \<and> x < result + tier_blocks t * 64 \<longrightarrow> wr x")
  case True
  with assms(2) have "\<forall>x. result \<le> x \<and> x < result + tier_blocks t * 64 \<longrightarrow> wr x"
    by (metis not_le_imp_less)
  then have "generate_prot t wr state result mem =
      Some (fst (generate t state result mem), tier_blocks t * 64)"
    by (rule generate_prot_ok)
  with True assms(1) show ?thesis
    by (simp add: generate_byte reference_stream_nth[OF length_cipher_state])
next
  case False
  then obtain x where "result + cap \<le> x" "x < result + tier_blocks t * 64" "\<not> wr x" by auto
  then have "generate_prot t wr state result mem = None"
    by (intro generate_prot_fault[where x = x]) simp_all
  with False show ?thesis by simp
qed

theorem undersized_buffer_overrun_or_fault_witness:
  "small_buffer_capacity < tier_blocks Narrow * 64 \<and>
   generate_prot Narrow heap_writable 0 64 rfc_memory =
     Some (fst (generate Narrow 0 64 rfc_memory), 128) \<and>
   generate_prot Narrow buffer_only_writable 0 64 rfc_memory = None"
proof -
  have c: "small_buffer_capacity < tier_blocks Narrow * 64"
    by (simp add: small_buffer_capacity_def)
  have h: "\<forall>x. 64 \<le> x \<and> x < 64 + small_buffer_capacity \<longrightarrow> heap_writable x"
    by (simp add: heap_writable_def small_buffer_capacity_def)
  have b: "\<forall>x. 64 \<le> x \<and> x < 64 + small_buffer_capacity \<longrightarrow> buffer_only_writable x"
    by (simp add: buffer_only_writable_def)
  have ht: "\<forall>x. 64 + small_buffer_capacity \<le> x \<and> x < 64 + tier_blocks Narrow * 64 \<longrightarrow>
      heap_writable x"
    by (simp add: heap_writable_def)
  have "\<not> buffer_only_writable (64 + small_buffer_capacity)"
    by (simp add: buffer_only_writable_def)
  then have bt: "\<not> (\<forall>x. 64 + small_buffer_capacity \<le> x \<and> x < 64 + tier_blocks Narrow * 64 \<longrightarrow>
      buffer_only_writable x)"
    using c by (intro notI) (drule spec[where x = "64 + small_buffer_capacity"], simp)
  from undersized_buffer_overrun_or_fault[OF c h, of 0 rfc_memory]
    undersized_buffer_overrun_or_fault[OF c b, of 0 rfc_memory] ht bt c
  show ?thesis by simp
qed

text \<open>
  Claim C9 (the cipher state is not written), as stated: for every call the cipher state
  after the call equals its value at entry. The stubs never store through \<^verbatim>\<open>state\<close>, but
  they store through \<^verbatim>\<open>result\<close> without comparing the two pointers. Called with
  \<open>result = state\<close> (both 0, the RFC state), the two-block stub overwrites the state with
  key stream: word 0 is \<open>0x61707865\<close> at entry and \<open>0xe4e7f110\<close> after the call.
\<close>

theorem overlapping_buffer_overwrites_state:
  "cipher_state rfc_memory 0 ! 0 = 0x61707865 \<and>
   cipher_state (fst (generate Narrow 0 0 rfc_memory)) 0 ! 0 = 0xe4e7f110"
proof -
  have st: "with_counter rfc_state (rfc_state ! 12 + 0) = rfc_state"
    by (rule with_counter_same) (simp add: rfc_state_def)
  have b: "fst (generate Narrow 0 0 rfc_memory) k = byte_of (rfc_block ! 0) k" if "k < 4" for k
  proof -
    from that have x: "k < tier_blocks Narrow * 64" by simp
    from that have "k div 64 = 0" "k mod 64 div 4 = 0" "k mod 4 = k" by simp_all
    with generate_byte[OF x, of 0 0 rfc_memory] st show ?thesis
      by (simp add: cipher_state_rfc_memory ref_block_rfc_state)
  qed
  have b2: "fst (generate Narrow 0 0 rfc_memory) (Suc (Suc 0)) = byte_of (rfc_block ! 0) 2"
    using b[of 2] by (simp add: numeral_2_eq_2)
  have "load32 (fst (generate Narrow 0 0 rfc_memory)) 0 = 0xe4e7f110"
    using b[of 0] b[of 1] b2 b[of 3]
    by (simp add: load32_def rfc_block_def byte_of_def)
  then have "cipher_state (fst (generate Narrow 0 0 rfc_memory)) 0 ! 0 = 0xe4e7f110"
    by (simp add: cipher_state_eq movdqu_load_def)
  then show ?thesis by (simp add: cipher_state_rfc_memory rfc_state_def)
qed

text \<open>
  Claim C9, amended: for every call under every tier whose output region
  \<open>[result, result + N * 64)\<close> does not overlap the 64 bytes of the cipher state, the state
  is only read and never written: every word of the cipher state after the call equals
  its value at entry.
\<close>

theorem cipher_state_not_mutated:
  assumes "state + 64 \<le> result \<or> result + tier_blocks t * 64 \<le> state"
  shows "cipher_state (fst (generate t state result mem)) state = cipher_state mem state"
proof (rule cipher_state_frame)
  fix x assume "state \<le> x" "x < state + 64"
  with assms have "x < result \<or> result + tier_blocks t * 64 \<le> x" by auto
  then show "fst (generate t state result mem) x = mem x" by (rule generate_frame)
qed

theorem cipher_state_not_mutated_witness:
  "((0::nat) + 64 \<le> 64 \<or> 64 + tier_blocks Medium * 64 \<le> (0::nat)) \<and>
   cipher_state (fst (generate Medium 0 64 rfc_memory)) 0 = rfc_state"
  using cipher_state_not_mutated[of 0 64 Medium rfc_memory]
  by (simp add: cipher_state_rfc_memory)

text \<open>
  Claim C10 (output frame). For every call under every tier, a byte at an address \<open>x\<close>
  outside \<open>[result, result + N * 64)\<close> keeps its value, a byte at an address \<open>y\<close> inside is
  overwritten (its value after the call is the same for any two memories holding the
  same cipher state, whatever the output region held before), and the returned count is
  \<open>N * 64\<close>.
\<close>

theorem output_frame:
  assumes "x < result \<or> result + tier_blocks t * 64 \<le> x"
    and "result \<le> y" "y < result + tier_blocks t * 64"
    and "cipher_state mem' state = cipher_state mem state"
  shows "fst (generate t state result mem) x = mem x \<and>
     fst (generate t state result mem') y = fst (generate t state result mem) y \<and>
     snd (generate t state result mem) = tier_blocks t * 64"
proof -
  define z where "z = y - result"
  with assms(2,3) have y: "y = result + z" and z: "z < tier_blocks t * 64" by simp_all
  have "fst (generate t state result mem') y = fst (generate t state result mem) y"
    unfolding y by (simp add: generate_byte[OF z] assms(4))
  with assms(1) show ?thesis by (simp add: generate_frame generate_snd)
qed

theorem output_frame_witness:
  "((192::nat) < 64 \<or> 64 + tier_blocks Narrow * 64 \<le> (192::nat)) \<and>
   (64::nat) \<le> 191 \<and> (191::nat) < 64 + tier_blocks Narrow * 64 \<and>
   cipher_state dirty_memory 0 = cipher_state rfc_memory 0 \<and>
   dirty_memory 191 \<noteq> rfc_memory 191 \<and>
   fst (generate Narrow 0 64 rfc_memory) 192 = rfc_memory 192 \<and>
   fst (generate Narrow 0 64 dirty_memory) 191 = fst (generate Narrow 0 64 rfc_memory) 191"
  using output_frame[of 192 64 Narrow 191 dirty_memory 0 rfc_memory]
  by (simp add: cipher_state_rfc_memory cipher_state_dirty_memory)
     (simp add: dirty_memory_def rfc_memory_def)

end
